theory Spec2Isabelle
  imports Main "HOL-Library.Sublist" "HOL-Library.Multiset"
begin

section \<open>JavaScript strings\<close>

text \<open>
  A JavaScript string is a sequence of UTF-16 code units, and every string operation of
  the program (\<open>charAt\<close>, \<open>slice\<close>, \<open>split\<close>, a regular expression without the \<open>u\<close>
  flag) works on code units. A code unit is a number from \<open>0\<close> to \<open>65535\<close>; the model
  takes it as an integer, and no operation of it leaves that range on a code unit.
  A string literal of the source is written \<open>js ''...''\<close>, and one character of it
  \<open>ch CHR ''.''\<close>.
\<close>

type_synonym code_unit = int

type_synonym jstring = "code_unit list"

definition ch :: "char \<Rightarrow> code_unit" where
  "ch c = of_char c"

definition js :: "string \<Rightarrow> jstring" where
  "js s = map ch s"

text \<open>The character class \<open>[a-zA-Z]\<close>: the code units of \<open>a\<close> to \<open>z\<close> and of \<open>A\<close> to \<open>Z\<close>.\<close>

definition isAlpha :: "code_unit \<Rightarrow> bool" where
  "isAlpha c \<longleftrightarrow> (0x0061 \<le> c \<and> c \<le> 0x007A) \<or> (0x0041 \<le> c \<and> c \<le> 0x005A)"

text \<open>
  White space as \<open>String.prototype.trim\<close> and \<open>\s\<close> see it (ECMAScript: the productions
  WhiteSpace and LineTerminator): TAB, LF, VT, FF, CR, SPACE, NO-BREAK SPACE,
  U+1680, U+2000 to U+200A, U+2028, U+2029, U+202F, U+205F, U+3000 and U+FEFF.
\<close>

definition isSpace :: "code_unit \<Rightarrow> bool" where
  "isSpace c \<longleftrightarrow>
     c \<in> set [0x0009, 0x000A, 0x000B, 0x000C, 0x000D, 0x0020, 0x00A0, 0x1680,
              0x2000, 0x2001, 0x2002, 0x2003, 0x2004, 0x2005, 0x2006, 0x2007, 0x2008,
              0x2009, 0x200A, 0x2028, 0x2029, 0x202F, 0x205F, 0x3000, 0xFEFF]"

text \<open>The line terminators, which \<open>.\<close> does not match: LF, CR, U+2028 and U+2029.\<close>

definition isLineTerminator :: "code_unit \<Rightarrow> bool" where
  "isLineTerminator c \<longleftrightarrow> c \<in> set [0x000A, 0x000D, 0x2028, 0x2029]"

text \<open>
  \<open>toLowerCase\<close> and \<open>toUpperCase\<close> follow the case conversions of the Unicode standard,
  which depend on the context of a character and may change the length of the string.
  On a string of ASCII code units they change the 26 letters and nothing else. For
  every other string the result is read from the tables of the JavaScript run time,
  which are no part of the repository and are a parameter of the model. No character is
  converted to the empty string, so the result for a string that is not empty is not
  empty: the tables give its first code unit and the rest of it.
\<close>

record unicode =
  unicodeToLowerCase :: "jstring \<Rightarrow> code_unit \<times> jstring"
  unicodeToUpperCase :: "jstring \<Rightarrow> code_unit \<times> jstring"

definition isAscii :: "code_unit \<Rightarrow> bool" where
  "isAscii c \<longleftrightarrow> 0 \<le> c \<and> c < 0x0080"

text \<open>The lower and the upper case of an ASCII code unit: \<open>A\<close> is \<open>0x41\<close> and \<open>a\<close> is \<open>0x61\<close>.\<close>

definition asciiLower :: "code_unit \<Rightarrow> code_unit" where
  "asciiLower c = (if 0x0041 \<le> c \<and> c \<le> 0x005A then c + 0x0020 else c)"

definition asciiUpper :: "code_unit \<Rightarrow> code_unit" where
  "asciiUpper c = (if 0x0061 \<le> c \<and> c \<le> 0x007A then c - 0x0020 else c)"

definition toLowerCase :: "unicode \<Rightarrow> jstring \<Rightarrow> jstring" where
  "toLowerCase u s =
     (if list_all isAscii s then map asciiLower s
      else (case unicodeToLowerCase u s of (c, cs) \<Rightarrow> c # cs))"

definition toUpperCase :: "unicode \<Rightarrow> jstring \<Rightarrow> jstring" where
  "toUpperCase u s =
     (if list_all isAscii s then map asciiUpper s
      else (case unicodeToUpperCase u s of (c, cs) \<Rightarrow> c # cs))"

text \<open>\<open>s.trim()\<close>.\<close>

definition trim :: "jstring \<Rightarrow> jstring" where
  "trim s = rev (dropWhile isSpace (rev (dropWhile isSpace s)))"

text \<open>\<open>s.startsWith(p)\<close>.\<close>

definition startsWith :: "jstring \<Rightarrow> jstring \<Rightarrow> bool" where
  "startsWith s p \<longleftrightarrow> take (length p) s = p"

text \<open>\<open>s.endsWith(p)\<close>.\<close>

definition endsWith :: "jstring \<Rightarrow> jstring \<Rightarrow> bool" where
  "endsWith s p \<longleftrightarrow> length p \<le> length s \<and> drop (length s - length p) s = p"

text \<open>
  \<open>s.split(sep)\<close> for a one-character separator: the pieces between the separators, so
  one piece more than there are separators; the empty string gives one empty piece.
  \<open>acc\<close> holds the current piece, reversed.
\<close>

fun split_acc :: "code_unit \<Rightarrow> jstring \<Rightarrow> jstring \<Rightarrow> jstring list" where
  "split_acc sep acc [] = [rev acc]"
| "split_acc sep acc (c # cs) =
     (if c = sep then rev acc # split_acc sep [] cs else split_acc sep (c # acc) cs)"

definition split_char :: "code_unit \<Rightarrow> jstring \<Rightarrow> jstring list" where
  "split_char sep s = split_acc sep [] s"

text \<open>
  \<open>raw.split(/\r?\n/)\<close>: a line ends at LF, or at CR LF; a CR that no LF follows stays
  in its line.
\<close>

fun split_lines_acc :: "jstring \<Rightarrow> jstring \<Rightarrow> jstring list" where
  "split_lines_acc acc [] = [rev acc]"
| "split_lines_acc acc (c # cs) =
     (if c = 0x000A then rev acc # split_lines_acc [] cs
      else if c = 0x000D \<and> cs \<noteq> [] \<and> hd cs = 0x000A
        then rev acc # split_lines_acc [] (tl cs)
      else split_lines_acc (c # acc) cs)"

definition split_lines :: "jstring \<Rightarrow> jstring list" where
  "split_lines raw = split_lines_acc [] raw"

text \<open>\<open>lines.join(sep)\<close>.\<close>

fun join :: "jstring \<Rightarrow> jstring list \<Rightarrow> jstring" where
  "join sep [] = []"
| "join sep [x] = x"
| "join sep (x # y # ys) = x @ sep @ join sep (y # ys)"

text \<open>\<open>s.replace(/\.$/, '')\<close>: without the \<open>m\<close> flag \<open>$\<close> is the end of the string only.\<close>

definition stripPeriod :: "jstring \<Rightarrow> jstring" where
  "stripPeriod s = (if s \<noteq> [] \<and> last s = ch CHR ''.'' then butlast s else s)"

section \<open>The commit subject parser\<close>

record commit =
  type :: jstring
  message :: jstring
  files_changed :: nat

text \<open>
  \<^verbatim>\<open>function capitalize(text) {
    if (!text) return text;
    return text.charAt(0).toUpperCase() + text.slice(1);
  }\<close>
  \<open>charAt(0)\<close> is the string of the first code unit, and its upper case may be longer.
\<close>

fun capitalize :: "unicode \<Rightarrow> jstring \<Rightarrow> jstring" where
  "capitalize u [] = []"
| "capitalize u (c # cs) = toUpperCase u [c] @ cs"

text \<open>
  The regular expression of \<open>parseCommitSubject\<close> is
  \<^verbatim>\<open>/^([a-zA-Z]+)(\(([^)]+)\))?(!)?:\s*(.+)$/\<close>.
  Each of its parts has one way to match at most, so the backtracking matcher is the
  sequence of the four functions below, each returning what its group captured and the
  rest of the input:
  \<^item> \<open>([a-zA-Z]+)\<close> is followed by \<open>(\<close>, \<open>!\<close> or \<open>:\<close>, none of them a letter, so
    group 1 is the longest run of letters;
  \<^item> \<open>[^)]+\<close> is followed by \<open>)\<close>, so group 3 runs to the first \<open>)\<close>; when the group
    cannot match, or is skipped, the next character must be \<open>!\<close> or \<open>:\<close>;
  \<^item> \<open>\s*\<close> is greedy and \<open>(.+)$\<close> takes the rest, which must be non-empty and free
    of line terminators; giving white space back to \<open>.+\<close> only helps when \<open>\s*\<close> took
    everything, and then group 5 is the last character.
\<close>

definition matchType :: "jstring \<Rightarrow> (jstring \<times> jstring) option" where
  "matchType s =
     (let ty = takeWhile isAlpha s in
      if ty = [] then None else Some (ty, dropWhile isAlpha s))"

definition matchScope :: "jstring \<Rightarrow> jstring option \<times> jstring" where
  "matchScope s =
     (case s of
        [] \<Rightarrow> (None, s)
      | c # r \<Rightarrow>
          if c = ch CHR ''('' then
            (let sc = takeWhile (\<lambda>x. x \<noteq> ch CHR '')'') r;
                 r' = dropWhile (\<lambda>x. x \<noteq> ch CHR '')'') r
             in if sc \<noteq> [] \<and> r' \<noteq> [] then (Some sc, tl r') else (None, s))
          else (None, s))"

definition matchBang :: "jstring \<Rightarrow> bool \<times> jstring" where
  "matchBang s =
     (case s of
        [] \<Rightarrow> (False, s)
      | c # r \<Rightarrow> if c = ch CHR ''!'' then (True, r) else (False, s))"

definition matchDescription :: "jstring \<Rightarrow> jstring option" where
  "matchDescription s =
     (case s of
        [] \<Rightarrow> None
      | c # r \<Rightarrow>
          if c = ch CHR '':'' then
            (let d = dropWhile isSpace r in
             if d \<noteq> [] then
               (if list_all (\<lambda>x. \<not> isLineTerminator x) d then Some d else None)
             else if r \<noteq> [] \<and> \<not> isLineTerminator (last r) then Some [last r]
             else None)
          else None)"

text \<open>The match array: groups 1, 3, 4 and 5 (group 2 is group 3 in its parentheses).\<close>

definition matchSubject :: "jstring \<Rightarrow> (jstring \<times> jstring option \<times> bool \<times> jstring) option" where
  "matchSubject s =
     (case matchType s of
        None \<Rightarrow> None
      | Some (ty, r1) \<Rightarrow>
          (case matchScope r1 of
             (sc, r2) \<Rightarrow>
               (case matchBang r2 of
                  (bang, r3) \<Rightarrow>
                    (case matchDescription r3 of
                       None \<Rightarrow> None
                     | Some d \<Rightarrow> Some (ty, sc, bang, d)))))"

text \<open>
  \<^verbatim>\<open>function parseCommitSubject(subject) {
    const trimmed = subject.trim();
    const match = trimmed.match(...);
    if (!match) {
      return { type: 'other', message: capitalize(trimmed.replace(/\.$/, '')) };
    }
    const commitType = match[1].toLowerCase();
    const scope = match[3];
    let message = match[5].trim().replace(/\.$/, '');
    message = capitalize(message);
    if (scope) message = `${scope}: ${message}`;
    return { type: commitType, message };
  }\<close>
  The result has no \<open>files_changed\<close>; the record is left open in that field by returning
  the pair of type and message.
\<close>

definition parseCommitSubject :: "unicode \<Rightarrow> jstring \<Rightarrow> jstring \<times> jstring" where
  "parseCommitSubject u subject =
     (let trimmed = trim subject in
      case matchSubject trimmed of
        None \<Rightarrow> (js ''other'', capitalize u (stripPeriod trimmed))
      | Some (ty, sc, bang, d) \<Rightarrow>
          (let commitType = toLowerCase u ty;
               message = capitalize u (stripPeriod (trim d))
           in (commitType,
               (case sc of None \<Rightarrow> message | Some scope \<Rightarrow> scope @ js '': '' @ message))))"

section \<open>The log stream decoder\<close>

text \<open>
  What the program can throw: a \<open>TypeError\<close> of the JavaScript run time, the error of
  \<open>execFileSync\<close> when git fails or cannot be started, and the system error of
  \<open>process.cwd\<close>, which \<open>path.resolve\<close> calls for a relative path, when the working
  directory is gone.
\<close>

datatype error = TypeError | ExecError | SystemError

text \<open>The unit separator \<open>\x1f\<close>, the tab, and the marker \<open>'__COMMIT__\x1f'\<close> of a commit's first line.\<close>

definition US :: code_unit where
  "US = 0x001F"

definition TAB :: code_unit where
  "TAB = 0x0009"

definition boundary :: jstring where
  "boundary = js ''__COMMIT__'' @ [US]"

text \<open>
  The body of the loop of \<open>parseGitLogWithNumstat\<close>, on the state \<open>(commits, current)\<close>:
  \<^verbatim>\<open>if (line.startsWith('__COMMIT__\x1f')) {
    if (current) commits.push(current);
    const subject = line.split('\x1f', 2)[1].trim();
    const parsed = parseCommitSubject(subject);
    current = { type: parsed.type, message: parsed.message, files_changed: 0 };
    continue;
  }
  if (!line.trim() || !current) continue;
  const parts = line.split('\t');
  if (parts.length >= 3) current.files_changed += 1;\<close>
  \<open>split\<close> with the limit 2 keeps the first two pieces; were there one piece only, element 1
  would be \<open>undefined\<close> and \<open>.trim()\<close> a \<open>TypeError\<close>.
\<close>

definition decode_line ::
  "unicode \<Rightarrow> jstring \<Rightarrow> commit list \<times> commit option
     \<Rightarrow> error + (commit list \<times> commit option)" where
  "decode_line u line st =
     (case st of (commits, current) \<Rightarrow>
        if startsWith line boundary then
          (case take 2 (split_char US line) of
             [p0, p1] \<Rightarrow>
               (let subject = trim p1;
                    parsed = parseCommitSubject u subject
                in Inr ((case current of None \<Rightarrow> commits | Some c \<Rightarrow> commits @ [c]),
                        Some \<lparr>type = fst parsed, message = snd parsed, files_changed = 0\<rparr>))
           | _ \<Rightarrow> Inl TypeError)
        else if trim line = [] \<or> current = None then Inr st
        else
          (let parts = split_char TAB line in
           if length parts \<ge> 3
           then Inr (commits,
                     map_option (\<lambda>c. c\<lparr>files_changed := files_changed c + 1\<rparr>) current)
           else Inr st))"

fun decode_lines ::
  "unicode \<Rightarrow> jstring list \<Rightarrow> commit list \<times> commit option
     \<Rightarrow> error + (commit list \<times> commit option)" where
  "decode_lines u [] st = Inr st"
| "decode_lines u (line # rest) st =
     (case decode_line u line st of Inl e \<Rightarrow> Inl e | Inr st' \<Rightarrow> decode_lines u rest st')"

text \<open>
  \<^verbatim>\<open>function parseGitLogWithNumstat(raw) {
    const commits = [];
    let current = null;
    for (const line of raw.split(/\r?\n/)) { ... }
    if (current) commits.push(current);
    return commits;
  }\<close>
\<close>

definition parseGitLogWithNumstat :: "unicode \<Rightarrow> jstring \<Rightarrow> error + commit list" where
  "parseGitLogWithNumstat u raw =
     (case decode_lines u (split_lines raw) ([], None) of
        Inl e \<Rightarrow> Inl e
      | Inr (commits, current) \<Rightarrow>
          Inr (case current of None \<Rightarrow> commits | Some c \<Rightarrow> commits @ [c]))"

section \<open>Grouping and deduplication\<close>

definition TYPE_ORDER :: "jstring list" where
  "TYPE_ORDER = map js [''feat'', ''fix'', ''refactor'', ''perf'', ''docs'', ''test'', ''chore'',
                        ''build'', ''ci'', ''style'', ''other'']"

definition TYPE_LABELS :: "(jstring \<times> jstring) list" where
  "TYPE_LABELS =
     map (\<lambda>(k, v). (js k, js v))
       [(''feat'', ''Features''), (''fix'', ''Fixes''), (''refactor'', ''Refactors''),
        (''perf'', ''Performance''), (''docs'', ''Docs''), (''test'', ''Tests''),
        (''chore'', ''Chores''), (''build'', ''Build''), (''ci'', ''CI''),
        (''style'', ''Style''), (''other'', ''Other'')]"

text \<open>
  \<open>grouped\<close> is made by the literal \<open>{}\<close>, so its prototype is \<open>Object.prototype\<close>, and
  \<open>grouped[k]\<close> for a \<open>k\<close> that is no property of \<open>grouped\<close> itself reads the property
  \<open>k\<close> of \<open>Object.prototype\<close>. Those properties are the ones below (ECMAScript, with the
  legacy accessors that Node.js has); each is a function, or for \<open>__proto__\<close> the
  prototype object: a value that is truthy and has no \<open>push\<close>.
\<close>

definition objectPrototypeKeys :: "jstring list" where
  "objectPrototypeKeys =
     map js [''constructor'', ''hasOwnProperty'', ''isPrototypeOf'', ''propertyIsEnumerable'',
             ''toLocaleString'', ''toString'', ''valueOf'', ''__proto__'',
             ''__defineGetter__'', ''__defineSetter__'', ''__lookupGetter__'',
             ''__lookupSetter__'']"

text \<open>What \<open>grouped[k]\<close> reads: an array of \<open>grouped\<close>'s own, an inherited value, or \<open>undefined\<close>.\<close>

datatype property = Own "jstring list" | Inherited | Undefined

definition getProperty :: "(jstring \<rightharpoonup> jstring list) \<Rightarrow> jstring \<Rightarrow> property" where
  "getProperty grouped k =
     (case grouped k of
        Some arr \<Rightarrow> Own arr
      | None \<Rightarrow> if k \<in> set objectPrototypeKeys then Inherited else Undefined)"

text \<open>\<open>for (const t of TYPE_ORDER) grouped[t] = [];\<close>\<close>

definition emptyGroups :: "jstring \<rightharpoonup> jstring list" where
  "emptyGroups = (\<lambda>k. if k \<in> set TYPE_ORDER then Some [] else None)"

text \<open>
  The body of the first loop of \<open>summarizeCommits\<close>, on the state \<open>(seen, grouped)\<close>:
  \<^verbatim>\<open>const key = commit.message.toLowerCase();
  if (seen.has(key)) continue;
  seen.add(key);
  const t = grouped[commit.type] ? commit.type : 'other';
  grouped[t].push(commit.message);\<close>
  An array is truthy also when it is empty. \<open>grouped[t].push\<close> on a value that has no
  \<open>push\<close> is a \<open>TypeError\<close>.
\<close>

definition group_commit ::
  "unicode \<Rightarrow> commit \<Rightarrow> jstring set \<times> (jstring \<rightharpoonup> jstring list)
     \<Rightarrow> error + (jstring set \<times> (jstring \<rightharpoonup> jstring list))" where
  "group_commit u commit st =
     (case st of (seen, grouped) \<Rightarrow>
        (let key = toLowerCase u (message commit) in
         if key \<in> seen then Inr st
         else
           (let seen' = insert key seen;
                t = (case getProperty grouped (type commit) of
                       Undefined \<Rightarrow> js ''other''
                     | _ \<Rightarrow> type commit)
            in case getProperty grouped t of
                 Own arr \<Rightarrow> Inr (seen', grouped(t \<mapsto> arr @ [message commit]))
               | _ \<Rightarrow> Inl TypeError)))"

fun group_commits ::
  "unicode \<Rightarrow> commit list \<Rightarrow> jstring set \<times> (jstring \<rightharpoonup> jstring list)
     \<Rightarrow> error + (jstring set \<times> (jstring \<rightharpoonup> jstring list))" where
  "group_commits u [] st = Inr st"
| "group_commits u (commit # rest) st =
     (case group_commit u commit st of
        Inl e \<Rightarrow> Inl e
      | Inr st' \<Rightarrow> group_commits u rest st')"

text \<open>\<open>TYPE_LABELS[t] || 'Other'\<close>, for a \<open>t\<close> of \<open>TYPE_ORDER\<close>.\<close>

definition typeLabel :: "jstring \<Rightarrow> jstring" where
  "typeLabel t =
     (case map_of TYPE_LABELS t of
        Some l \<Rightarrow> if l = [] then js ''Other'' else l
      | None \<Rightarrow> js ''Other'')"

text \<open>
  The second loop of \<open>summarizeCommits\<close>:
  \<^verbatim>\<open>for (const t of TYPE_ORDER) {
    if (grouped[t].length === 0) continue;
    lines.push(`${TYPE_LABELS[t] || 'Other'}:`);
    for (const item of grouped[t]) lines.push(`- ${item}`);
  }\<close>
\<close>

fun emit_groups :: "(jstring \<rightharpoonup> jstring list) \<Rightarrow> jstring list \<Rightarrow> error + jstring list" where
  "emit_groups grouped [] = Inr []"
| "emit_groups grouped (t # ts) =
     (case grouped t of
        None \<Rightarrow> Inl TypeError
      | Some arr \<Rightarrow>
          (case emit_groups grouped ts of
             Inl e \<Rightarrow> Inl e
           | Inr rest \<Rightarrow>
               Inr ((if arr = [] then []
                     else (typeLabel t @ js '':'') # map (\<lambda>item. js ''- '' @ item) arr)
                    @ rest)))"

text \<open>
  \<^verbatim>\<open>function summarizeCommits(commits) {
    if (!commits || commits.length === 0) {
      return ['No commits in the last 24 hours'];
    }
    const seen = new Set();
    const grouped = {};
    for (const t of TYPE_ORDER) grouped[t] = [];
    for (const commit of commits) { ... }
    const lines = [];
    for (const t of TYPE_ORDER) { ... }
    return lines;
  }\<close>
\<close>

definition summarizeCommits :: "unicode \<Rightarrow> commit list \<Rightarrow> error + jstring list" where
  "summarizeCommits u commits =
     (if commits = [] then Inr [js ''No commits in the last 24 hours'']
      else
        (case group_commits u commits ({}, emptyGroups) of
           Inl e \<Rightarrow> Inl e
         | Inr (seen, grouped) \<Rightarrow> emit_groups grouped TYPE_ORDER))"

section \<open>The repository summarizer\<close>

text \<open>
  The summary of one repository. Its last field is \<open>files_changed\<close> in the source, a name
  that the record of a commit has taken.
\<close>

record repo_summary =
  name :: jstring
  path :: jstring
  commits :: "commit list"
  commit_count :: nat
  repo_files_changed :: nat

text \<open>
  What the program reads from outside: the case tables of the run time; \<open>path.resolve\<close>,
  which throws for a relative path when the working directory is gone, and
  \<open>path.basename\<close>; \<open>process.cwd()\<close>, which throws in the same case; the output of
  \<open>execFileSync('git', ['-C', absPath, 'log', ...])\<close> for a directory, or the error it
  throws; the configuration that \<open>loadConfig\<close> has returned; and the two lines that the
  user answers. A field of the configuration that the file does not set is \<open>None\<close>.
\<close>

record env =
  unicode_tables :: unicode
  resolve :: "jstring \<Rightarrow> error + jstring"
  basename :: "jstring \<Rightarrow> jstring"
  cwd :: "error + jstring"
  execGitLog :: "jstring \<Rightarrow> error + jstring"
  config_format :: "jstring option"
  config_team :: "jstring option"
  config_repos :: "jstring list option"
  answer_today :: jstring
  answer_blockers :: jstring

text \<open>
  \<^verbatim>\<open>function getRepoSummary(repoPath) {
    const absPath = path.resolve(repoPath);
    const repoName = path.basename(absPath) || absPath;
    try {
      const raw = execFileSync('git', [...], {...}).trim();
      const commits = parseGitLogWithNumstat(raw);
      return {
        name: repoName,
        path: absPath,
        commits,
        commit_count: commits.length,
        files_changed: commits.reduce((sum, cmt) => sum + cmt.files_changed, 0),
      };
    } catch {
      return null;
    }
  }\<close>
  An error of \<open>path.resolve\<close>, which stands before \<open>try\<close>, leaves the function. The body
  of \<open>try\<close> is a computation that may end in an error; \<open>catch\<close> turns every error of it
  into \<open>null\<close>, which is \<open>None\<close>.
\<close>

definition getRepoSummary :: "env \<Rightarrow> jstring \<Rightarrow> error + repo_summary option" where
  "getRepoSummary e repoPath =
     (case resolve e repoPath of
        Inl err \<Rightarrow> Inl err
      | Inr absPath \<Rightarrow>
          (let repoName = (if basename e absPath \<noteq> [] then basename e absPath else absPath)
           in Inr (case (case execGitLog e absPath of
                           Inl err \<Rightarrow> Inl err
                         | Inr out \<Rightarrow>
                             (let raw = trim out in
                              case parseGitLogWithNumstat (unicode_tables e) raw of
                                Inl err \<Rightarrow> Inl err
                              | Inr cs \<Rightarrow>
                                  Inr \<lparr>name = repoName, path = absPath, commits = cs,
                                       commit_count = length cs,
                                       repo_files_changed =
                                         foldl (\<lambda>sum cmt. sum + files_changed cmt) 0 cs\<rparr>))
                   of Inl err \<Rightarrow> None
                    | Inr summary \<Rightarrow> Some summary)))"

section \<open>The output renderer\<close>

text \<open>
  A count in a template literal: the decimal digits of the number (the counts of the
  program stay far below \<open>10^21\<close>, where JavaScript changes to the exponent notation).
\<close>

definition digit :: "nat \<Rightarrow> code_unit" where
  "digit d = js ''0123456789'' ! (d mod 10)"

fun show_nat :: "nat \<Rightarrow> jstring" where
  "show_nat n = (if n < 10 then [digit n] else show_nat (n div 10) @ [digit (n mod 10)])"

declare show_nat.simps [simp del]

text \<open>
  The loop of \<open>formatOutput\<close> over the repositories:
  \<^verbatim>\<open>for (const repo of repoSummaries) {
    repoLines.push(
      `${repo.name} (${repo.commit_count} commits, ${repo.files_changed} files changed):`
    );
    repoLines.push(...summarizeCommits(repo.commits));
    repoLines.push('');
  }\<close>
  It returns the lines that it pushes.
\<close>

fun repo_lines :: "unicode \<Rightarrow> repo_summary list \<Rightarrow> error + jstring list" where
  "repo_lines u [] = Inr []"
| "repo_lines u (repo # rest) =
     (case summarizeCommits u (commits repo) of
        Inl e \<Rightarrow> Inl e
      | Inr ls \<Rightarrow>
          (case repo_lines u rest of
             Inl e \<Rightarrow> Inl e
           | Inr others \<Rightarrow>
               Inr ([name repo @ js '' ('' @ show_nat (commit_count repo) @ js '' commits, ''
                       @ show_nat (repo_files_changed repo) @ js '' files changed):'']
                    @ ls @ [[]] @ others)))"

text \<open>
  The line of the Slack format for a line of the repositories' block:
  \<^verbatim>\<open>if (!line) lines.push('');
  else if (line.endsWith(':')) lines.push(`*${line}*`);
  else if (line.startsWith('- ')) lines.push(`- ${line.slice(2)}`);
  else lines.push(`- ${line}`);\<close>
\<close>

definition slack_line :: "jstring \<Rightarrow> jstring" where
  "slack_line line =
     (if line = [] then []
      else if endsWith line (js '':'') then js ''*'' @ line @ js ''*''
      else if startsWith line (js ''- '') then js ''- '' @ drop 2 line
      else js ''- '' @ line)"

text \<open>A value that is \<open>null\<close>, \<open>undefined\<close> or a string is truthy when it is a non-empty string.\<close>

definition truthy :: "jstring option \<Rightarrow> bool" where
  "truthy v \<longleftrightarrow> (case v of None \<Rightarrow> False | Some s \<Rightarrow> s \<noteq> [])"

text \<open>
  \<^verbatim>\<open>function formatOutput({ repoSummaries, today, blockers, format, team }) {
    const repoLines = [];
    if (!repoSummaries || repoSummaries.length === 0) {
      repoLines.push('No repositories scanned');
    }
    for (const repo of repoSummaries) { ... }
    if (repoLines.length > 0 && repoLines[repoLines.length - 1] === '') {
      repoLines.pop();
    }
    if (format === 'slack') {
      const lines = [];
      if (team) lines.push(`*Team:* ${team}`);
      lines.push('*Yesterday:*');
      for (const line of repoLines) { ... }
      lines.push(`*Today:* ${today}`);
      lines.push(`*Blockers:* ${blockers || 'None'}`);
      return lines.join('\n');
    }
    if (format === 'markdown') {
      const lines = ['### Daily Standup', ''];
      if (team) lines.push('**Team:**', team, '');
      lines.push('**Yesterday:**');
      lines.push(...repoLines);
      lines.push('', '**Today:**', today, '', '**Blockers:**', blockers || 'None');
      return lines.join('\n');
    }
    const lines = [];
    if (team) lines.push(`Team: ${team}`);
    lines.push('Yesterday:');
    lines.push(...repoLines);
    lines.push(`Today: ${today}`);
    lines.push(`Blockers: ${blockers || 'None'}`);
    return lines.join('\n');
  }\<close>
  The fields of the argument are the arguments of the function; \<open>repoSummaries\<close> is a list.
\<close>

definition formatOutput ::
  "unicode \<Rightarrow> repo_summary list \<Rightarrow> jstring \<Rightarrow> jstring \<Rightarrow> jstring \<Rightarrow> jstring option
     \<Rightarrow> error + jstring" where
  "formatOutput u repoSummaries today blockers format team =
     (case repo_lines u repoSummaries of
        Inl e \<Rightarrow> Inl e
      | Inr pushed \<Rightarrow>
          (let repoLines0 =
                 (if repoSummaries = [] then [js ''No repositories scanned''] else []) @ pushed;
               repoLines =
                 (if repoLines0 \<noteq> [] \<and> last repoLines0 = [] then butlast repoLines0
                  else repoLines0);
               blockersOrNone = (if blockers = [] then js ''None'' else blockers)
           in if format = js ''slack'' then
                Inr (join [0x000A]
                  ((if truthy team then [js ''*Team:* '' @ the team] else [])
                   @ [js ''*Yesterday:*'']
                   @ map slack_line repoLines
                   @ [js ''*Today:* '' @ today, js ''*Blockers:* '' @ blockersOrNone]))
              else if format = js ''markdown'' then
                Inr (join [0x000A]
                  ([js ''### Daily Standup'', []]
                   @ (if truthy team then [js ''**Team:**'', the team, []] else [])
                   @ [js ''**Yesterday:**'']
                   @ repoLines
                   @ [[], js ''**Today:**'', today, [], js ''**Blockers:**'', blockersOrNone]))
              else
                Inr (join [0x000A]
                  ((if truthy team then [js ''Team: '' @ the team] else [])
                   @ [js ''Yesterday:'']
                   @ repoLines
                   @ [js ''Today: '' @ today, js ''Blockers: '' @ blockersOrNone]))))"

section \<open>The command line\<close>

text \<open>The result of \<open>parseArgs\<close>: the fields \<open>format\<close>, \<open>team\<close>, \<open>noCopy\<close> and \<open>repos\<close>.\<close>

record cli =
  cli_format :: "jstring option"
  cli_team :: "jstring option"
  cli_noCopy :: bool
  cli_repos :: "jstring list"

text \<open>
  The loop of \<open>parseArgs\<close>. An option that takes a value is read only when a non-empty
  argument follows it (\<open>argv[i + 1]\<close> is truthy), and then skips that argument;
  \<open>--help\<close> prints the help and ends the process with status 0, which is \<open>Inl 0\<close>; every
  other argument is passed over.
  \<^verbatim>\<open>if ((arg === '--format' || arg === '-f') && argv[i + 1]) {
    parsed.format = String(argv[i + 1]).toLowerCase();
    i += 1;
    continue;
  }
  if ((arg === '--team' || arg === '-t') && argv[i + 1]) {
    parsed.team = argv[i + 1];
    i += 1;
    continue;
  }
  if (arg === '--repo' && argv[i + 1]) {
    parsed.repos.push(argv[i + 1]);
    i += 1;
    continue;
  }
  if (arg === '--no-copy') {
    parsed.noCopy = true;
    continue;
  }
  if (arg === '--help' || arg === '-h') {
    printHelp();
    process.exit(0);
  }\<close>
\<close>

fun parseArgs_loop :: "unicode \<Rightarrow> jstring list \<Rightarrow> cli \<Rightarrow> nat + cli" where
  "parseArgs_loop u [] parsed = Inr parsed"
| "parseArgs_loop u [arg] parsed =
     (if arg = js ''--no-copy'' then Inr (parsed\<lparr>cli_noCopy := True\<rparr>)
      else if arg = js ''--help'' \<or> arg = js ''-h'' then Inl 0
      else Inr parsed)"
| "parseArgs_loop u (arg # nxt # rest) parsed =
     (if (arg = js ''--format'' \<or> arg = js ''-f'') \<and> nxt \<noteq> [] then
        parseArgs_loop u rest (parsed\<lparr>cli_format := Some (toLowerCase u nxt)\<rparr>)
      else if (arg = js ''--team'' \<or> arg = js ''-t'') \<and> nxt \<noteq> [] then
        parseArgs_loop u rest (parsed\<lparr>cli_team := Some nxt\<rparr>)
      else if arg = js ''--repo'' \<and> nxt \<noteq> [] then
        parseArgs_loop u rest (parsed\<lparr>cli_repos := cli_repos parsed @ [nxt]\<rparr>)
      else if arg = js ''--no-copy'' then
        parseArgs_loop u (nxt # rest) (parsed\<lparr>cli_noCopy := True\<rparr>)
      else if arg = js ''--help'' \<or> arg = js ''-h'' then Inl 0
      else parseArgs_loop u (nxt # rest) parsed)"

definition parseArgs :: "unicode \<Rightarrow> jstring list \<Rightarrow> nat + cli" where
  "parseArgs u argv =
     parseArgs_loop u argv
       \<lparr>cli_format = None, cli_team = None, cli_noCopy = False, cli_repos = []\<rparr>"

text \<open>
  \<^verbatim>\<open>function collectRepoPaths(configRepos, cliRepos) {
    const source = cliRepos.length > 0 ? cliRepos
      : (configRepos.length > 0 ? configRepos : [process.cwd()]);
    const unique = [];
    const seen = new Set();
    for (const repo of source) {
      const abs = path.resolve(repo);
      const key = abs.toLowerCase();
      if (seen.has(key)) continue;
      seen.add(key);
      unique.push(abs);
    }
    return unique;
  }\<close>
\<close>

fun collect_unique ::
  "env \<Rightarrow> jstring list \<Rightarrow> jstring list \<times> jstring set \<Rightarrow> error + jstring list" where
  "collect_unique e [] st = Inr (fst st)"
| "collect_unique e (repo # rest) st =
     (case st of (unique, seen) \<Rightarrow>
        (case resolve e repo of
           Inl err \<Rightarrow> Inl err
         | Inr absPath \<Rightarrow>
             (let key = toLowerCase (unicode_tables e) absPath
              in if key \<in> seen then collect_unique e rest st
                 else collect_unique e rest (unique @ [absPath], insert key seen))))"

definition collectRepoPaths :: "env \<Rightarrow> jstring list \<Rightarrow> jstring list \<Rightarrow> error + jstring list" where
  "collectRepoPaths e configRepos cliRepos =
     (if cliRepos \<noteq> [] then collect_unique e cliRepos ([], {})
      else if configRepos \<noteq> [] then collect_unique e configRepos ([], {})
      else (case cwd e of
              Inl err \<Rightarrow> Inl err
            | Inr dir \<Rightarrow> collect_unique e [dir] ([], {})))"

text \<open>
  The scan of \<open>main\<close>, on the state \<open>(repoSummaries, skipped)\<close>, with the paths that
  \<open>getRepoSummary\<close> has been called on in front:
  \<^verbatim>\<open>for (const repoPath of repoPaths) {
    const summary = getRepoSummary(repoPath);
    if (!summary) {
      skipped.push(repoPath);
      continue;
    }
    repoSummaries.push(summary);
    ...
  }\<close>
\<close>

fun scan_repos ::
  "env \<Rightarrow> jstring list \<Rightarrow> jstring list \<times> repo_summary list \<times> jstring list
     \<Rightarrow> jstring list \<times> (error + (repo_summary list \<times> jstring list))" where
  "scan_repos e [] (called, repoSummaries, skipped) = (called, Inr (repoSummaries, skipped))"
| "scan_repos e (repoPath # rest) (called, repoSummaries, skipped) =
     (case getRepoSummary e repoPath of
        Inl err \<Rightarrow> (called @ [repoPath], Inl err)
      | Inr None \<Rightarrow>
          scan_repos e rest (called @ [repoPath], repoSummaries, skipped @ [repoPath])
      | Inr (Some summary) \<Rightarrow>
          scan_repos e rest (called @ [repoPath], repoSummaries @ [summary], skipped))"

text \<open>
  How a run ends: \<open>process.exit\<close> with a status, or the end of \<open>main\<close> with the standup
  that it has printed.
\<close>

datatype outcome = Exit nat | Done jstring

text \<open>\<open>a || b\<close> for two values that are \<open>null\<close>, \<open>undefined\<close> or strings.\<close>

definition orElse :: "jstring option \<Rightarrow> jstring option \<Rightarrow> jstring option" where
  "orElse a b = (if truthy a then a else b)"

definition validFormats :: "jstring list" where
  "validFormats = map js [''plain'', ''slack'', ''markdown'']"

text \<open>
  \<^verbatim>\<open>async function main() {
    const config = loadConfig();
    const cli = parseArgs(process.argv.slice(2));
    const validFormats = ['plain', 'slack', 'markdown'];
    const format = cli.format || config.format || 'plain';
    if (!validFormats.includes(format)) {
      console.error(`Unknown format "${format}". Choose: plain, slack, markdown`);
      process.exit(1);
    }
    const team = cli.team || config.team || null;
    ...
    const repoPaths = collectRepoPaths(config.repos || [], cli.repos);
    ...
    for (const repoPath of repoPaths) { ... }
    ...
    const today = await ask(rl, ...);
    const blockers = await ask(rl, ...);
    const output = formatOutput({
      repoSummaries,
      today: today || '(not specified)',
      blockers: blockers || 'None',
      format,
      team,
    });
    ...
  }
  main().catch((err) => {
    console.error('Error:', err.message);
    process.exit(1);
  });\<close>
  The model returns the repository paths that \<open>getRepoSummary\<close> was called on, in the
  order of the calls, and how the run ended; an error that \<open>main\<close> throws ends the run
  with status 1. \<open>ask\<close> trims the answer. What \<open>main\<close> prints besides the standup, and
  the clipboard, are left out.
\<close>

definition main :: "env \<Rightarrow> jstring list \<Rightarrow> jstring list \<times> outcome" where
  "main e argv =
     (case parseArgs (unicode_tables e) argv of
        Inl status \<Rightarrow> ([], Exit status)
      | Inr parsed \<Rightarrow>
          (let format =
                 (case orElse (cli_format parsed)
                         (orElse (config_format e) (Some (js ''plain''))) of
                    Some f \<Rightarrow> f
                  | None \<Rightarrow> js ''plain'')
           in if format \<notin> set validFormats then ([], Exit 1)
              else
                (let team = (let t = orElse (cli_team parsed) (config_team e)
                             in if truthy t then t else None)
                 in case collectRepoPaths e
                           (case config_repos e of None \<Rightarrow> [] | Some rs \<Rightarrow> rs)
                           (cli_repos parsed) of
                      Inl err \<Rightarrow> ([], Exit 1)
                    | Inr repoPaths \<Rightarrow>
                        (case scan_repos e repoPaths ([], [], []) of
                           (called, Inl err) \<Rightarrow> (called, Exit 1)
                         | (called, Inr (repoSummaries, skipped)) \<Rightarrow>
                             (let today = trim (answer_today e);
                                  blockers = trim (answer_blockers e)
                              in case formatOutput (unicode_tables e) repoSummaries
                                        (if today = [] then js ''(not specified)'' else today)
                                        (if blockers = [] then js ''None'' else blockers)
                                        format team of
                                   Inl err \<Rightarrow> (called, Exit 1)
                                 | Inr output \<Rightarrow> (called, Done output))))))"

section \<open>Specifications\<close>

text \<open>
  The grammar \<open>type(scope)!: description\<close> as the specification words it: a type of one
  or more letters, an optional scope in parentheses (any characters except the closing
  parenthesis), an optional \<open>!\<close>, then a colon and a space, and the description, which
  is everything after them. Where the words leave a choice (an empty scope, an empty
  description) the definition admits it, so that a subject outside of it is outside of
  every reading of the words.
\<close>

definition specGrammar :: "jstring \<Rightarrow> jstring \<Rightarrow> jstring option \<Rightarrow> bool \<Rightarrow> jstring \<Rightarrow> bool" where
  "specGrammar t ty sc bang d \<longleftrightarrow>
     t = ty @ (case sc of None \<Rightarrow> [] | Some x \<Rightarrow> js ''('' @ x @ js '')'')
            @ (if bang then js ''!'' else []) @ js '': '' @ d
     \<and> ty \<noteq> [] \<and> list_all isAlpha ty
     \<and> (case sc of None \<Rightarrow> True | Some x \<Rightarrow> ch CHR '')'' \<notin> set x)"

text \<open>
  The subjects that the parser takes for conventional, stated without the matcher: a
  type \<open>ty\<close> of one or more of the letters \<open>a\<close> to \<open>z\<close> and \<open>A\<close> to \<open>Z\<close>, an optional
  scope in parentheses (one or more characters, none of them a closing parenthesis), an
  optional \<open>!\<close>, a colon, white space \<open>ws\<close> of any length, none included, and a
  description \<open>d\<close> of one or more characters, none of them a line terminator, that runs
  to the end of the subject.
\<close>

definition conventional ::
  "jstring \<Rightarrow> jstring \<Rightarrow> jstring option \<Rightarrow> bool \<Rightarrow> jstring \<Rightarrow> jstring \<Rightarrow> bool" where
  "conventional t ty sc bang ws d \<longleftrightarrow>
     t = ty @ (case sc of None \<Rightarrow> [] | Some x \<Rightarrow> js ''('' @ x @ js '')'')
            @ (if bang then js ''!'' else []) @ js '':'' @ ws @ d
     \<and> ty \<noteq> [] \<and> list_all isAlpha ty
     \<and> (case sc of None \<Rightarrow> True | Some x \<Rightarrow> x \<noteq> [] \<and> ch CHR '')'' \<notin> set x)
     \<and> list_all isSpace ws
     \<and> d \<noteq> [] \<and> list_all (\<lambda>c. \<not> isLineTerminator c) d"

text \<open>
  The decoder's input as the specification words it. A boundary line starts with the
  marker \<open>__COMMIT__\<close> and the unit separator; its subject is the text after the
  separator, up to a further separator if there is one. A stat line is a line that is
  not blank and has three tab-separated fields at least, that is two tabs at least.
\<close>

definition boundaryLine :: "jstring \<Rightarrow> bool" where
  "boundaryLine line \<longleftrightarrow> prefix (js ''__COMMIT__'' @ [0x001F]) line"

definition statLine :: "jstring \<Rightarrow> bool" where
  "statLine line \<longleftrightarrow> \<not> list_all isSpace line \<and> 2 \<le> count_list line 0x0009"

definition subjectOf :: "jstring \<Rightarrow> jstring" where
  "subjectOf line = takeWhile (\<lambda>c. c \<noteq> 0x001F) (drop 11 line)"

text \<open>
  The record of a boundary line and the lines that follow it: its files are the stat
  lines before the next boundary line, or the end of the input.
\<close>

definition recordOf :: "unicode \<Rightarrow> jstring \<Rightarrow> jstring list \<Rightarrow> commit" where
  "recordOf u line following =
     \<lparr>type = fst (parseCommitSubject u (trim (subjectOf line))),
      message = snd (parseCommitSubject u (trim (subjectOf line))),
      files_changed = length (filter statLine (takeWhile (\<lambda>l. \<not> boundaryLine l) following))\<rparr>"

text \<open>One record for every boundary line, in the order of the lines.\<close>

fun recordsOf :: "unicode \<Rightarrow> jstring list \<Rightarrow> commit list" where
  "recordsOf u [] = []"
| "recordsOf u (line # rest) =
     (if boundaryLine line then recordOf u line rest # recordsOf u rest else recordsOf u rest)"

text \<open>What the decoder's state delivers at the end of the input.\<close>

definition finish :: "commit list \<times> commit option \<Rightarrow> commit list" where
  "finish st = (case st of (records, current) \<Rightarrow>
                  (case current of None \<Rightarrow> records | Some c \<Rightarrow> records @ [c]))"

text \<open>The stat lines before the first boundary line.\<close>

definition statsBefore :: "jstring list \<Rightarrow> nat" where
  "statsBefore ls = length (filter statLine (takeWhile (\<lambda>l. \<not> boundaryLine l) ls))"

text \<open>
  The formatter's output as the specification words it. The dedup key of a record is its
  message in lower case. A record is first-seen when no record before it in the input has
  its key; the type plays no part. The bucket of a type is the type itself when it is
  one of \<open>TYPE_ORDER\<close>, and \<open>other\<close> otherwise. A bullet line starts with \<open>- \<close>; the block
  of a group is empty when the group is, and else its header line and one bullet line
  for every message.
\<close>

definition dedupKey :: "unicode \<Rightarrow> commit \<Rightarrow> jstring" where
  "dedupKey u c = toLowerCase u (message c)"

definition firstSeen :: "unicode \<Rightarrow> commit list \<Rightarrow> commit list" where
  "firstSeen u records =
     map (\<lambda>i. records ! i)
       (filter (\<lambda>i. dedupKey u (records ! i) \<notin> set (map (dedupKey u) (take i records)))
          [0..<length records])"

definition bucketOf :: "jstring \<Rightarrow> jstring" where
  "bucketOf ty = (if ty \<in> set TYPE_ORDER then ty else js ''other'')"

definition isBullet :: "jstring \<Rightarrow> bool" where
  "isBullet line \<longleftrightarrow> prefix (js ''- '') line"

definition groupBlock :: "jstring \<Rightarrow> jstring list \<Rightarrow> jstring list" where
  "groupBlock t ms =
     (if ms = [] then [] else (typeLabel t @ js '':'') # map (\<lambda>m. js ''- '' @ m) ms)"

text \<open>The first-seen records by recursion, given the keys seen so far.\<close>

fun survivors :: "unicode \<Rightarrow> jstring set \<Rightarrow> commit list \<Rightarrow> commit list" where
  "survivors u seen [] = []"
| "survivors u seen (c # cs) =
     (if dedupKey u c \<in> seen then survivors u seen cs
      else c # survivors u (insert (dedupKey u c) seen) cs)"

text \<open>The own properties of \<open>grouped\<close> are the types of \<open>TYPE_ORDER\<close>, at any time.\<close>

definition ownGroups :: "(jstring \<rightharpoonup> jstring list) \<Rightarrow> bool" where
  "ownGroups grouped \<longleftrightarrow> (\<forall>k. grouped k \<noteq> None \<longleftrightarrow> k \<in> set TYPE_ORDER)"

text \<open>
  The format of a run: the tag of the command line when it gives one, else the tag of
  the configuration when it gives one, else \<open>plain\<close>.
\<close>

definition chosenFormat :: "env \<Rightarrow> cli \<Rightarrow> jstring" where
  "chosenFormat e parsed =
     (if truthy (cli_format parsed) then the (cli_format parsed)
      else if truthy (config_format e) then the (config_format e)
      else js ''plain'')"

section \<open>The subject parser and its pattern\<close>

lemma js_Nil: "js [] = []"
  by (simp add: js_def)

lemma js_Cons: "js (c # cs) = ch c # js cs"
  by (simp add: js_def)

lemma not_alpha_punct:
  "\<not> isAlpha (ch CHR ''('')" "\<not> isAlpha (ch CHR ''!'')" "\<not> isAlpha (ch CHR '':'')"
  by (simp_all add: isAlpha_def ch_def)

lemma punct_distinct:
  "ch CHR '':'' \<noteq> ch CHR ''(''" "ch CHR ''!'' \<noteq> ch CHR ''(''" "ch CHR '':'' \<noteq> ch CHR ''!''"
  by (simp_all add: ch_def)

lemma matchType_complete:
  assumes "ty \<noteq> []" "list_all isAlpha ty" "r = [] \<or> \<not> isAlpha (hd r)"
  shows "matchType (ty @ r) = Some (ty, r)"
proof -
  have a: "\<And>x. x \<in> set ty \<Longrightarrow> isAlpha x" using assms(2) by (simp add: list_all_iff)
  have t: "takeWhile isAlpha r = []" using assms(3) by (cases r) auto
  have d: "dropWhile isAlpha r = r" using assms(3) by (cases r) auto
  show ?thesis
    using assms(1) a by (simp add: matchType_def takeWhile_append2 dropWhile_append2 t d)
qed

lemma matchType_sound:
  assumes "matchType s = Some (ty, r)"
  shows "s = ty @ r \<and> ty \<noteq> [] \<and> list_all isAlpha ty \<and> (r = [] \<or> \<not> isAlpha (hd r))"
proof -
  from assms have ty: "ty = takeWhile isAlpha s" and r: "r = dropWhile isAlpha s" and ne: "ty \<noteq> []"
    by (auto simp: matchType_def Let_def split: if_splits)
  have "list_all isAlpha ty" unfolding ty list_all_iff by (auto dest: set_takeWhileD)
  moreover have "r = [] \<or> \<not> isAlpha (hd r)"
  proof (cases "r = []")
    case False
    then show ?thesis unfolding r by (metis hd_dropWhile)
  qed simp
  ultimately show ?thesis using ty r ne by simp
qed

lemma matchScope_Some:
  assumes "x \<noteq> []" "ch CHR '')'' \<notin> set x"
  shows "matchScope (js ''('' @ x @ js '')'' @ r) = (Some x, r)"
proof -
  have p: "\<And>c. c \<in> set x \<Longrightarrow> c \<noteq> ch CHR '')''" using assms(2) by auto
  show ?thesis using assms(1) p
    by (simp add: matchScope_def takeWhile_append2 dropWhile_append2 js_Cons js_Nil)
qed

lemma matchScope_None:
  assumes "s = [] \<or> hd s \<noteq> ch CHR ''(''"
  shows "matchScope s = (None, s)"
  using assms by (cases s) (auto simp: matchScope_def)

lemma matchScope_sound:
  assumes "matchScope s = (sc, r)"
  shows "s = (case sc of None \<Rightarrow> [] | Some x \<Rightarrow> js ''('' @ x @ js '')'') @ r
         \<and> (case sc of None \<Rightarrow> True | Some x \<Rightarrow> x \<noteq> [] \<and> ch CHR '')'' \<notin> set x)"
proof (cases sc)
  case None
  with assms show ?thesis
    by (cases s) (auto simp: matchScope_def Let_def split: if_splits)
next
  case (Some x)
  with assms obtain c t where s: "s = c # t" and c: "c = ch CHR ''(''"
    and x: "x = takeWhile (\<lambda>y. y \<noteq> ch CHR '')'') t" and ne: "x \<noteq> []"
    and d: "dropWhile (\<lambda>y. y \<noteq> ch CHR '')'') t \<noteq> []"
    and r: "r = tl (dropWhile (\<lambda>y. y \<noteq> ch CHR '')'') t)"
    by (cases s) (auto simp: matchScope_def Let_def split: if_splits)
  have h: "hd (dropWhile (\<lambda>y. y \<noteq> ch CHR '')'') t) = ch CHR '')''"
    using d hd_dropWhile[of "\<lambda>y. y \<noteq> ch CHR '')''" t] by simp
  have "t = x @ dropWhile (\<lambda>y. y \<noteq> ch CHR '')'') t" unfolding x by simp
  also have "dropWhile (\<lambda>y. y \<noteq> ch CHR '')'') t = ch CHR '')'' # r"
    using d h r by (cases "dropWhile (\<lambda>y. y \<noteq> ch CHR '')'') t") auto
  finally have t: "t = x @ ch CHR '')'' # r" .
  have "ch CHR '')'' \<notin> set x" unfolding x by (auto dest: set_takeWhileD)
  with s c t ne Some show ?thesis by (simp add: js_Cons js_Nil)
qed

lemma matchBang_sound:
  assumes "matchBang s = (bang, r)"
  shows "s = (if bang then js ''!'' else []) @ r \<and> (bang \<or> r = [] \<or> hd r \<noteq> ch CHR ''!'')"
  using assms by (cases s) (auto simp: matchBang_def js_Cons js_Nil split: if_splits)

lemma matchBang_True: "matchBang (js ''!'' @ r) = (True, r)"
  by (simp add: matchBang_def js_Cons js_Nil)

lemma matchBang_False: "s = [] \<or> hd s \<noteq> ch CHR ''!'' \<Longrightarrow> matchBang s = (False, s)"
  by (cases s) (auto simp: matchBang_def)

lemma dropWhile_all: "list_all P xs \<Longrightarrow> dropWhile P (xs @ ys) = dropWhile P ys"
  by (induction xs) auto

lemma list_all_dropWhile: "list_all P (dropWhile P xs) \<longleftrightarrow> list_all P xs"
  by (induction xs) auto

lemma trim_Nil_iff: "trim s = [] \<longleftrightarrow> list_all isSpace s"
proof -
  have "trim s = [] \<longleftrightarrow> list_all isSpace (dropWhile isSpace s)"
    by (simp add: trim_def list_all_iff dropWhile_eq_Nil_conv)
  then show ?thesis by (simp add: list_all_dropWhile)
qed

lemma trim_all_space: "list_all isSpace ws \<Longrightarrow> trim (ws @ d) = trim d"
  by (simp add: trim_def dropWhile_all)

lemma trim_dropWhile: "trim (dropWhile isSpace s) = trim s"
  by (simp add: trim_def)

lemma matchDescription_sound:
  assumes "matchDescription s = Some d"
  shows "\<exists>ws. s = js '':'' @ ws @ d \<and> list_all isSpace ws \<and> d \<noteq> []
              \<and> list_all (\<lambda>c. \<not> isLineTerminator c) d"
proof -
  from assms obtain r where s: "s = ch CHR '':'' # r"
    by (cases s) (auto simp: matchDescription_def split: if_splits)
  show ?thesis
  proof (cases "dropWhile isSpace r = []")
    case True
    with assms s have r: "r \<noteq> []" and l: "\<not> isLineTerminator (last r)" and d: "d = [last r]"
      by (auto simp: matchDescription_def split: if_splits)
    from True have "list_all isSpace r" by (simp add: list_all_iff dropWhile_eq_Nil_conv)
    then have "list_all isSpace (butlast r)" by (auto simp: list_all_iff dest: in_set_butlastD)
    moreover have "r = butlast r @ d" using r d by simp
    ultimately show ?thesis using s l d
      by (intro exI[of _ "butlast r"]) (auto simp: js_Cons js_Nil)
  next
    case False
    with assms s have d: "d = dropWhile isSpace r" and l: "list_all (\<lambda>c. \<not> isLineTerminator c) d"
      by (auto simp: matchDescription_def Let_def split: if_splits)
    have "r = takeWhile isSpace r @ d" unfolding d by simp
    moreover have "list_all isSpace (takeWhile isSpace r)"
      by (auto simp: list_all_iff dest: set_takeWhileD)
    ultimately show ?thesis using s l False d
      by (intro exI[of _ "takeWhile isSpace r"]) (auto simp: js_Cons js_Nil)
  qed
qed

lemma matchDescription_nonblank:
  assumes "dropWhile isSpace r = d" "d \<noteq> []" "list_all (\<lambda>x. \<not> isLineTerminator x) d"
  shows "matchDescription (ch CHR '':'' # r) = Some d"
  using assms unfolding matchDescription_def Let_def by (simp del: dropWhile_eq_Nil_conv)

lemma matchDescription_blank:
  assumes "dropWhile isSpace r = []" "r \<noteq> []" "\<not> isLineTerminator (last r)"
  shows "matchDescription (ch CHR '':'' # r) = Some [last r]"
  using assms unfolding matchDescription_def Let_def by (simp del: dropWhile_eq_Nil_conv)

lemma matchDescription_complete:
  assumes "list_all isSpace ws" "d \<noteq> []" "list_all (\<lambda>c. \<not> isLineTerminator c) d"
  shows "\<exists>d'. matchDescription (js '':'' @ ws @ d) = Some d' \<and> trim d' = trim d"
proof (cases "list_all isSpace d")
  case True
  then have all: "list_all isSpace (ws @ d)" using assms(1) by simp
  then have dw: "dropWhile isSpace (ws @ d) = []" by (simp add: list_all_iff dropWhile_eq_Nil_conv)
  have l: "\<not> isLineTerminator (last (ws @ d))"
    using assms(2,3) by (simp add: list_all_iff)
  have sp: "isSpace (last (ws @ d))" using all assms(2) by (simp add: list_all_iff)
  have "matchDescription (js '':'' @ ws @ d) = Some [last (ws @ d)]"
    using matchDescription_blank[OF dw _ l] assms(2) by (simp add: js_Cons js_Nil)
  moreover have "trim [last (ws @ d)] = trim d"
  proof -
    have "trim [last (ws @ d)] = []" using sp by (simp add: trim_def)
    moreover have "trim d = []" using True by (simp add: trim_Nil_iff)
    ultimately show ?thesis by simp
  qed
  ultimately show ?thesis by blast
next
  case False
  have dw: "dropWhile isSpace (ws @ d) = dropWhile isSpace d"
    using assms(1) by (rule dropWhile_all)
  have ne: "dropWhile isSpace d \<noteq> []" using False by (simp add: list_all_iff dropWhile_eq_Nil_conv)
  have l: "list_all (\<lambda>c. \<not> isLineTerminator c) (dropWhile isSpace d)"
    using assms(3) by (auto simp: list_all_iff dest: set_dropWhileD)
  have "matchDescription (js '':'' @ ws @ d) = Some (dropWhile isSpace d)"
    using matchDescription_nonblank[OF dw ne l] by (simp add: js_Cons js_Nil)
  then show ?thesis by (simp add: trim_dropWhile)
qed

lemma matchSubject_sound:
  assumes "matchSubject t = Some (ty, sc, bang, d)"
  shows "\<exists>ws. conventional t ty sc bang ws d"
proof -
  from assms obtain r1 r2 r3 where
    1: "matchType t = Some (ty, r1)" and 2: "matchScope r1 = (sc, r2)"
    and 3: "matchBang r2 = (bang, r3)" and 4: "matchDescription r3 = Some d"
    by (auto simp: matchSubject_def split: option.splits prod.splits)
  from matchDescription_sound[OF 4] obtain ws where
    w: "r3 = js '':'' @ ws @ d" "list_all isSpace ws" "d \<noteq> []"
       "list_all (\<lambda>c. \<not> isLineTerminator c) d"
    by blast
  show ?thesis
    using matchType_sound[OF 1] matchScope_sound[OF 2] matchBang_sound[OF 3] w
    by (intro exI[of _ ws]) (simp add: conventional_def)
qed

lemma matchSubject_complete:
  assumes "conventional t ty sc bang ws d"
  shows "\<exists>d'. matchSubject t = Some (ty, sc, bang, d') \<and> trim d' = trim d"
proof -
  define r3 where "r3 = js '':'' @ ws @ d"
  define r2 where "r2 = (if bang then js ''!'' else []) @ r3"
  define r1 where "r1 = (case sc of None \<Rightarrow> [] | Some x \<Rightarrow> js ''('' @ x @ js '')'') @ r2"
  from assms have t: "t = ty @ r1" and ty: "ty \<noteq> []" "list_all isAlpha ty"
    and sc: "case sc of None \<Rightarrow> True | Some x \<Rightarrow> x \<noteq> [] \<and> ch CHR '')'' \<notin> set x"
    and d: "list_all isSpace ws" "d \<noteq> []" "list_all (\<lambda>c. \<not> isLineTerminator c) d"
    by (simp_all add: conventional_def r1_def r2_def r3_def)
  have h1: "r1 = [] \<or> \<not> isAlpha (hd r1)"
    by (cases sc; cases bang)
      (simp_all add: r1_def r2_def r3_def not_alpha_punct js_Cons js_Nil)
  have 1: "matchType t = Some (ty, r1)" unfolding t by (rule matchType_complete[OF ty h1])
  have 2: "matchScope r1 = (sc, r2)"
  proof (cases sc)
    case None
    then have "r1 = r2" by (simp add: r1_def)
    moreover have "r2 = [] \<or> hd r2 \<noteq> ch CHR ''(''"
      by (cases bang) (simp_all add: r2_def r3_def js_Cons js_Nil punct_distinct)
    ultimately show ?thesis using None matchScope_None by simp
  next
    case (Some x)
    then show ?thesis using sc matchScope_Some[of x r2] by (simp add: r1_def)
  qed
  have 3: "matchBang r2 = (bang, r3)"
  proof (cases bang)
    case True
    then show ?thesis using matchBang_True[of r3] by (simp add: r2_def)
  next
    case False
    then show ?thesis using matchBang_False[of r3]
      by (simp add: r2_def r3_def js_Cons js_Nil punct_distinct)
  qed
  from matchDescription_complete[OF d] obtain d' where
    4: "matchDescription r3 = Some d'" and 5: "trim d' = trim d"
    unfolding r3_def by blast
  show ?thesis using 1 2 3 4 5 by (simp add: matchSubject_def)
qed

lemma specGrammar_sublist: "specGrammar t ty sc bang d \<Longrightarrow> sublist (js '': '') t"
  unfolding specGrammar_def sublist_def by (metis append.assoc)

text \<open>
  Claim C1, as amended. The pattern of the parser is: a type of one or more of the
  letters \<open>a\<close> to \<open>z\<close> and \<open>A\<close> to \<open>Z\<close>, an optional scope in parentheses (one or more
  characters other than the closing parenthesis), an optional \<open>!\<close>, a colon, white space
  of any length (none included), and a description of one or more characters without a
  line terminator, up to the end. Whenever the trimmed subject has this pattern,
  \<open>parseCommitSubject\<close> returns the type in lower case, and as message the trimmed
  description, one trailing period stripped and the first character capitalized, after
  the prefix \<open>scope: \<close> when there is a scope; the scope stands in the prefix exactly as
  the subject writes it, its case unchanged. When the trimmed subject has not this
  pattern, the type is \<open>other\<close> and the message is the trimmed subject, one trailing
  period stripped and the first character capitalized.
\<close>

theorem parseCommitSubject_grammar:
  "(conventional (trim subject) ty sc bang ws d \<longrightarrow>
      parseCommitSubject u subject =
        (toLowerCase u ty,
         (case sc of None \<Rightarrow> [] | Some scope \<Rightarrow> scope @ js '': '')
           @ capitalize u (stripPeriod (trim d))))
   \<and> ((\<forall>ty sc bang ws d. \<not> conventional (trim subject) ty sc bang ws d) \<longrightarrow>
      parseCommitSubject u subject = (js ''other'', capitalize u (stripPeriod (trim subject))))"
proof (intro conjI impI)
  assume "conventional (trim subject) ty sc bang ws d"
  from matchSubject_complete[OF this] obtain d' where
    m: "matchSubject (trim subject) = Some (ty, sc, bang, d')" and t: "trim d' = trim d"
    by blast
  show "parseCommitSubject u subject =
        (toLowerCase u ty,
         (case sc of None \<Rightarrow> [] | Some scope \<Rightarrow> scope @ js '': '')
           @ capitalize u (stripPeriod (trim d)))"
    using m t by (cases sc) (simp_all add: parseCommitSubject_def)
next
  assume n: "\<forall>ty sc bang ws d. \<not> conventional (trim subject) ty sc bang ws d"
  have "matchSubject (trim subject) = None"
  proof (rule ccontr)
    assume "matchSubject (trim subject) \<noteq> None"
    then obtain ty sc bang d where "matchSubject (trim subject) = Some (ty, sc, bang, d)"
      by (cases "matchSubject (trim subject)") auto
    from matchSubject_sound[OF this] n show False by blast
  qed
  then show "parseCommitSubject u subject
             = (js ''other'', capitalize u (stripPeriod (trim subject)))"
    by (simp add: parseCommitSubject_def)
qed

theorem parseCommitSubject_grammar_witness:
  "conventional (trim ([0x00A0] @ js '' fix(Auth)!:'' @ [0x3000] @ js ''handle null token.  ''))
     (js ''fix'') (Some (js ''Auth'')) True [0x3000] (js ''handle null token.'')
   \<and> (\<forall>u. parseCommitSubject u
             ([0x00A0] @ js '' fix(Auth)!:'' @ [0x3000] @ js ''handle null token.  '')
           = (js ''fix'', js ''Auth: Handle null token''))
   \<and> (\<forall>ty sc bang ws d. \<not> conventional (trim (js ''weird subject line.'')) ty sc bang ws d)
   \<and> (\<forall>u. parseCommitSubject u (js ''weird subject line.'')
           = (js ''other'', js ''Weird subject line''))"
proof -
  define s where "s = [0x00A0] @ js '' fix(Auth)!:'' @ [0x3000] @ js ''handle null token.  ''"
  have c: "conventional (trim s) (js ''fix'') (Some (js ''Auth'')) True [0x3000]
             (js ''handle null token.'')"
    unfolding s_def by code_simp
  have n: "\<forall>ty sc bang ws d. \<not> conventional (trim (js ''weird subject line.'')) ty sc bang ws d"
  proof (intro allI notI)
    fix ty sc bang ws d
    assume "conventional (trim (js ''weird subject line.'')) ty sc bang ws d"
    from matchSubject_complete[OF this]
    have "matchSubject (trim (js ''weird subject line.'')) \<noteq> None" by auto
    moreover have "matchSubject (trim (js ''weird subject line.'')) = None" by code_simp
    ultimately show False by simp
  qed
  have p1: "parseCommitSubject u s = (js ''fix'', js ''Auth: Handle null token'')" for u
  proof -
    have e1: "toLowerCase u (js ''fix'') = js ''fix''" by code_simp
    have e2: "capitalize u (stripPeriod (trim (js ''handle null token.'')))
              = js ''Handle null token''"
      by code_simp
    have e3: "js ''Auth'' @ js '': '' @ js ''Handle null token'' = js ''Auth: Handle null token''"
      by code_simp
    from parseCommitSubject_grammar[of s "js ''fix''" "Some (js ''Auth'')" True "[0x3000]"
        "js ''handle null token.''" u] c
    show ?thesis by (simp add: e1 e2 e3)
  qed
  have p2: "parseCommitSubject u (js ''weird subject line.'')
            = (js ''other'', js ''Weird subject line'')" for u
  proof -
    have e: "capitalize u (stripPeriod (trim (js ''weird subject line.'')))
             = js ''Weird subject line''"
      by code_simp
    from parseCommitSubject_grammar[of "js ''weird subject line.''" _ _ _ _ _ u] n
    show ?thesis by (simp add: e)
  qed
  from c n p1 p2 show ?thesis unfolding s_def by blast
qed

text \<open>
  Claim C1 as stated fails in two ways. It has the scope of the prefix in lower case:
  the subject \<open>fix(Auth): x\<close> is in the grammar of the specification with the scope
  \<open>Auth\<close>, and its message is \<open>Auth: X\<close>, not \<open>auth: X\<close>. And its grammar has a colon and
  a space before the description: the subject \<open>feat:x\<close> has no colon with a space after
  it, so it is outside of that grammar, and yet its type is \<open>feat\<close> and its message \<open>X\<close>,
  not \<open>other\<close> and \<open>Feat:x\<close>.
\<close>

theorem parseCommitSubject_claim_counterexample:
  "specGrammar (trim (js ''fix(Auth): x'')) (js ''fix'') (Some (js ''Auth'')) False (js ''x'')
   \<and> (\<forall>u. snd (parseCommitSubject u (js ''fix(Auth): x'')) = js ''Auth: X'')
   \<and> (\<forall>u. snd (parseCommitSubject u (js ''fix(Auth): x''))
           \<noteq> toLowerCase u (js ''Auth'') @ js '': ''
               @ capitalize u (stripPeriod (trim (js ''x''))))
   \<and> (\<forall>ty sc bang d. \<not> specGrammar (trim (js ''feat:x'')) ty sc bang d)
   \<and> (\<forall>u. parseCommitSubject u (js ''feat:x'') = (js ''feat'', js ''X''))
   \<and> (\<forall>u. parseCommitSubject u (js ''feat:x'')
           \<noteq> (js ''other'', capitalize u (stripPeriod (trim (js ''feat:x'')))))"
proof (intro conjI allI)
  show "specGrammar (trim (js ''fix(Auth): x'')) (js ''fix'') (Some (js ''Auth'')) False (js ''x'')"
    by code_simp
  show "snd (parseCommitSubject u (js ''fix(Auth): x'')) = js ''Auth: X''" for u
    by code_simp
  show "snd (parseCommitSubject u (js ''fix(Auth): x''))
           \<noteq> toLowerCase u (js ''Auth'') @ js '': ''
               @ capitalize u (stripPeriod (trim (js ''x'')))" for u
    by code_simp
  show "\<not> specGrammar (trim (js ''feat:x'')) ty sc bang d" for ty sc bang d
  proof
    assume "specGrammar (trim (js ''feat:x'')) ty sc bang d"
    then have "sublist (js '': '') (trim (js ''feat:x''))" by (rule specGrammar_sublist)
    moreover have "\<not> sublist (js '': '') (trim (js ''feat:x''))" by code_simp
    ultimately show False by simp
  qed
  show "parseCommitSubject u (js ''feat:x'') = (js ''feat'', js ''X'')" for u
    by code_simp
  show "parseCommitSubject u (js ''feat:x'')
           \<noteq> (js ''other'', capitalize u (stripPeriod (trim (js ''feat:x''))))" for u
    by code_simp
qed

section \<open>The decoder\<close>

lemma length_split_acc: "length (split_acc sep acc s) = Suc (count_list s sep)"
  by (induction s arbitrary: acc) auto

lemma length_split_char: "length (split_char sep s) = Suc (count_list s sep)"
  by (simp add: split_char_def length_split_acc)

lemma split_acc_first:
  "\<exists>ps. split_acc sep acc s = (rev acc @ takeWhile (\<lambda>c. c \<noteq> sep) s) # ps"
proof (induction s arbitrary: acc)
  case Nil
  then show ?case by simp
next
  case (Cons a s)
  show ?case using Cons[of "a # acc"] by (cases "a = sep") auto
qed

lemma marker_length: "length (js ''__COMMIT__'' @ [0x001F]) = 11"
  by (simp add: js_def)

lemma startsWith_boundary: "startsWith line boundary \<longleftrightarrow> boundaryLine line"
proof -
  have "take (length boundary) line = boundary \<longleftrightarrow> prefix boundary line"
    by (metis append_take_drop_id prefix_def append_eq_conv_conj)
  then show ?thesis by (simp add: startsWith_def boundaryLine_def boundary_def US_def)
qed

lemma boundaryLine_split:
  assumes "boundaryLine line"
  shows "take 2 (split_char US line) = [js ''__COMMIT__'', subjectOf line]"
proof -
  from assms obtain rest where line: "line = (js ''__COMMIT__'' @ [0x001F]) @ rest"
    by (auto simp: boundaryLine_def prefix_def)
  then have rest: "drop 11 line = rest" using marker_length by simp
  obtain ps where ps: "split_acc US [] rest = takeWhile (\<lambda>c. c \<noteq> US) rest # ps"
    using split_acc_first[of US "[]" rest] by auto
  have "split_acc US [] ((js ''__COMMIT__'' @ [0x001F]) @ rest)
        = js ''__COMMIT__'' # split_acc US [] rest"
    by (simp add: US_def js_def ch_def)
  then have "split_char US line = js ''__COMMIT__'' # split_acc US [] rest"
    unfolding line split_char_def .
  then show ?thesis using ps rest by (simp add: subjectOf_def US_def)
qed

lemma decode_line_boundary:
  assumes "boundaryLine line"
  shows "decode_line u line (records, current) =
           Inr ((case current of None \<Rightarrow> records | Some c \<Rightarrow> records @ [c]),
                Some (recordOf u line []))"
  using assms boundaryLine_split[OF assms]
  by (simp add: decode_line_def startsWith_boundary recordOf_def Let_def)

lemma decode_line_other:
  assumes "\<not> boundaryLine line"
  shows "decode_line u line (records, current) =
           Inr (records,
                map_option
                  (\<lambda>c. c\<lparr>files_changed := files_changed c + (if statLine line then 1 else 0)\<rparr>)
                  current)"
proof (cases current)
  case None
  then show ?thesis using assms by (simp add: decode_line_def startsWith_boundary)
next
  case (Some c)
  then show ?thesis using assms
    by (simp add: decode_line_def startsWith_boundary trim_Nil_iff statLine_def
        length_split_char TAB_def Suc_le_eq numeral_3_eq_3 numeral_2_eq_2 less_Suc_eq_le)
qed

lemma decode_lines_spec:
  "\<exists>st. decode_lines u ls (records, current) = Inr st
        \<and> finish st =
            records
            @ (case current of None \<Rightarrow> []
               | Some c \<Rightarrow> [c\<lparr>files_changed := files_changed c + statsBefore ls\<rparr>])
            @ recordsOf u ls"
proof (induction ls arbitrary: records current)
  case Nil
  then show ?case by (cases current) (simp_all add: finish_def statsBefore_def)
next
  case (Cons line rest)
  show ?case
  proof (cases "boundaryLine line")
    case True
    from Cons.IH[of "case current of None \<Rightarrow> records | Some c \<Rightarrow> records @ [c]"
        "Some (recordOf u line [])"]
    obtain st where st: "decode_lines u rest
        ((case current of None \<Rightarrow> records | Some c \<Rightarrow> records @ [c]),
         Some (recordOf u line [])) = Inr st"
      and f: "finish st = (case current of None \<Rightarrow> records | Some c \<Rightarrow> records @ [c])
           @ [(recordOf u line [])
                \<lparr>files_changed := files_changed (recordOf u line []) + statsBefore rest\<rparr>]
           @ recordsOf u rest"
      by auto
    have r: "(recordOf u line [])
               \<lparr>files_changed := files_changed (recordOf u line []) + statsBefore rest\<rparr>
             = recordOf u line rest"
      by (simp add: recordOf_def statsBefore_def)
    show ?thesis using True st f r
      by (cases current) (simp_all add: decode_line_boundary statsBefore_def)
  next
    case False
    from Cons.IH[of records
        "map_option
           (\<lambda>c. c\<lparr>files_changed := files_changed c + (if statLine line then 1 else 0)\<rparr>)
           current"]
    show ?thesis using False
      by (cases current) (auto simp: decode_line_other statsBefore_def)
  qed
qed

lemma recordsOf_index:
  "recordsOf u ls =
     map (\<lambda>i. recordOf u (ls ! i) (drop (Suc i) ls))
       (filter (\<lambda>i. boundaryLine (ls ! i)) [0..<length ls])"
proof (induction ls)
  case Nil
  then show ?case by simp
next
  case (Cons line rest)
  have upt: "[0..<length (line # rest)] = 0 # map Suc [0..<length rest]"
    by (simp add: upt_conv_Cons map_Suc_upt del: upt_Suc)
  show ?case unfolding upt using Cons.IH
    by (simp add: filter_map o_def del: upt_Suc)
qed

lemma length_recordsOf: "length (recordsOf u ls) = length (filter boundaryLine ls)"
  by (induction ls) auto

lemma recordsOf_none: "\<forall>l\<in>set ls. \<not> boundaryLine l \<Longrightarrow> recordsOf u ls = []"
  by (induction ls) auto

lemma parseGitLogWithNumstat_recordsOf:
  "parseGitLogWithNumstat u raw = Inr (recordsOf u (split_lines raw))"
proof -
  from decode_lines_spec[of u "split_lines raw" "[]" None]
  obtain st where "decode_lines u (split_lines raw) ([], None) = Inr st"
    and "finish st = recordsOf u (split_lines raw)" by auto
  then show ?thesis by (cases st) (simp add: parseGitLogWithNumstat_def finish_def)
qed

text \<open>
  Claim C2. Decoding never fails. With the lines of the input numbered from 0, the
  result holds one record for every boundary line, in the order of the lines; the record
  of line \<open>i\<close> is read from the subject of that line, and its \<open>files_changed\<close> is the number
  of stat lines (not blank, three tab-separated fields at least) among the lines after
  line \<open>i\<close> and before the next boundary line or the end of the input. So there are as
  many records as boundary lines, and an input without a boundary line, the empty
  string among them, gives the empty sequence.
\<close>

theorem parseGitLogWithNumstat_records:
  "parseGitLogWithNumstat u raw =
     Inr (map (\<lambda>i. recordOf u (split_lines raw ! i) (drop (Suc i) (split_lines raw)))
            (filter (\<lambda>i. boundaryLine (split_lines raw ! i)) [0..<length (split_lines raw)]))
   \<and> (\<exists>records. parseGitLogWithNumstat u raw = Inr records
         \<and> length records = length (filter boundaryLine (split_lines raw)))
   \<and> ((\<forall>line\<in>set (split_lines raw). \<not> boundaryLine line) \<longrightarrow>
        parseGitLogWithNumstat u raw = Inr [])
   \<and> parseGitLogWithNumstat u [] = Inr []"
proof (intro conjI impI)
  show "parseGitLogWithNumstat u raw =
     Inr (map (\<lambda>i. recordOf u (split_lines raw ! i) (drop (Suc i) (split_lines raw)))
            (filter (\<lambda>i. boundaryLine (split_lines raw ! i)) [0..<length (split_lines raw)]))"
    using parseGitLogWithNumstat_recordsOf[of u raw] recordsOf_index[of u "split_lines raw"]
    by simp
  show "\<exists>records. parseGitLogWithNumstat u raw = Inr records
         \<and> length records = length (filter boundaryLine (split_lines raw))"
    using parseGitLogWithNumstat_recordsOf[of u raw] length_recordsOf[of u "split_lines raw"]
    by simp
  show "parseGitLogWithNumstat u raw = Inr []"
    if "\<forall>line\<in>set (split_lines raw). \<not> boundaryLine line"
    using that parseGitLogWithNumstat_recordsOf[of u raw] recordsOf_none[of "split_lines raw" u]
    by simp
  show "parseGitLogWithNumstat u [] = Inr []"
    by (simp add: parseGitLogWithNumstat_recordsOf split_lines_def boundaryLine_def js_def)
qed

theorem parseGitLogWithNumstat_records_witness:
  "(\<forall>u. parseGitLogWithNumstat u
     (js ''__COMMIT__'' @ [0x001F] @ js ''feat: add login'' @ [0x000A]
      @ js ''3'' @ [0x0009] @ js ''1'' @ [0x0009] @ js ''src/login.js'' @ [0x000A]
      @ [0x000A]
      @ [0x00A0, 0x0009, 0x0009, 0x2003] @ [0x000A]
      @ js ''-'' @ [0x0009] @ js ''-'' @ [0x0009] @ js ''logo.png'' @ [0x000D, 0x000A]
      @ js ''only'' @ [0x0009] @ js ''two fields'' @ [0x000A]
      @ js ''__COMMIT__'' @ [0x001F] @ js ''weird subject line'')
     = Inr [\<lparr>type = js ''feat'', message = js ''Add login'', files_changed = 2\<rparr>,
            \<lparr>type = js ''other'', message = js ''Weird subject line'', files_changed = 0\<rparr>])
   \<and> (\<forall>u. parseGitLogWithNumstat u
           (js ''fatal: no commits here'' @ [0x000A] @ js ''at all'') = Inr [])"
proof -
  define raw where "raw =
      js ''__COMMIT__'' @ [0x001F] @ js ''feat: add login'' @ [0x000A]
      @ js ''3'' @ [0x0009] @ js ''1'' @ [0x0009] @ js ''src/login.js'' @ [0x000A]
      @ [0x000A]
      @ [0x00A0, 0x0009, 0x0009, 0x2003] @ [0x000A]
      @ js ''-'' @ [0x0009] @ js ''-'' @ [0x0009] @ js ''logo.png'' @ [0x000D, 0x000A]
      @ js ''only'' @ [0x0009] @ js ''two fields'' @ [0x000A]
      @ js ''__COMMIT__'' @ [0x001F] @ js ''weird subject line''"
  have 1: "parseGitLogWithNumstat u raw
           = Inr [\<lparr>type = js ''feat'', message = js ''Add login'', files_changed = 2\<rparr>,
                  \<lparr>type = js ''other'', message = js ''Weird subject line'',
                     files_changed = 0\<rparr>]" for u
  proof -
    have r: "map (\<lambda>i. recordOf u (split_lines raw ! i) (drop (Suc i) (split_lines raw)))
            (filter (\<lambda>i. boundaryLine (split_lines raw ! i)) [0..<length (split_lines raw)])
           = [\<lparr>type = js ''feat'', message = js ''Add login'', files_changed = 2\<rparr>,
              \<lparr>type = js ''other'', message = js ''Weird subject line'', files_changed = 0\<rparr>]"
      unfolding raw_def by code_simp
    from parseGitLogWithNumstat_records[of u raw] r show ?thesis by simp
  qed
  have n: "\<forall>line\<in>set (split_lines (js ''fatal: no commits here'' @ [0x000A] @ js ''at all'')).
             \<not> boundaryLine line"
    by code_simp
  have 2: "parseGitLogWithNumstat u (js ''fatal: no commits here'' @ [0x000A] @ js ''at all'')
           = Inr []" for u
    using parseGitLogWithNumstat_records[of u
        "js ''fatal: no commits here'' @ [0x000A] @ js ''at all''"] n
    by blast
  from 1 2 show ?thesis unfolding raw_def by blast
qed

section \<open>The types of decoded records\<close>














section \<open>Grouping: what the two loops compute\<close>

lemma survivors_index:
  "survivors u seen cs =
     map (\<lambda>i. cs ! i)
       (filter (\<lambda>i. dedupKey u (cs ! i) \<notin> seen \<union> set (map (dedupKey u) (take i cs))) [0..<length cs])"
proof (induction cs arbitrary: seen)
  case Nil
  then show ?case by simp
next
  case (Cons c cs)
  have upt: "[0..<length (c # cs)] = 0 # map Suc [0..<length cs]"
    by (simp add: upt_conv_Cons map_Suc_upt del: upt_Suc)
  show ?case
  proof (cases "dedupKey u c \<in> seen")
    case True
    have e: "\<And>k Q. (k \<notin> seen \<and> k \<noteq> dedupKey u c \<and> Q) = (k \<notin> seen \<and> Q)"
      using True by auto
    show ?thesis unfolding upt using True Cons.IH[of seen]
      by (simp add: filter_map o_def e del: upt_Suc)
  next
    case False
    then show ?thesis unfolding upt using Cons.IH[of "insert (dedupKey u c) seen"]
      by (simp add: filter_map o_def conj_ac del: upt_Suc)
  qed
qed

lemma firstSeen_survivors: "firstSeen u records = survivors u {} records"
  by (simp add: firstSeen_def survivors_index)

lemma inherited_disjoint: "\<forall>k\<in>set objectPrototypeKeys. k \<notin> set TYPE_ORDER"
  by code_simp

lemma inherited_not_TYPE_ORDER: "k \<in> set objectPrototypeKeys \<Longrightarrow> k \<notin> set TYPE_ORDER"
  using inherited_disjoint by blast

lemma other_TYPE_ORDER: "js ''other'' \<in> set TYPE_ORDER"
  by code_simp

lemma bucketOf_TYPE_ORDER: "bucketOf ty \<in> set TYPE_ORDER"
  by (simp add: bucketOf_def other_TYPE_ORDER)

lemma getProperty_own:
  "ownGroups grouped \<Longrightarrow> k \<in> set TYPE_ORDER \<Longrightarrow> getProperty grouped k = Own (the (grouped k))"
  by (auto simp: ownGroups_def getProperty_def split: option.splits)

lemma getProperty_inherited:
  "ownGroups grouped \<Longrightarrow> k \<in> set objectPrototypeKeys \<Longrightarrow> getProperty grouped k = Inherited"
  using inherited_not_TYPE_ORDER[of k]
  by (auto simp: ownGroups_def getProperty_def split: option.splits)

lemma getProperty_undefined:
  "ownGroups grouped \<Longrightarrow> k \<notin> set objectPrototypeKeys \<Longrightarrow> k \<notin> set TYPE_ORDER \<Longrightarrow>
     getProperty grouped k = Undefined"
  by (auto simp: ownGroups_def getProperty_def split: option.splits)

lemma group_commit_seen:
  "dedupKey u c \<in> seen \<Longrightarrow> group_commit u c (seen, grouped) = Inr (seen, grouped)"
  by (simp add: group_commit_def dedupKey_def)

lemma group_commit_inherited:
  assumes "ownGroups grouped" "dedupKey u c \<notin> seen" "type c \<in> set objectPrototypeKeys"
  shows "group_commit u c (seen, grouped) = Inl TypeError"
  using assms getProperty_inherited[OF assms(1,3)]
  by (simp add: group_commit_def dedupKey_def Let_def)

lemma group_commit_push:
  assumes "ownGroups grouped" "dedupKey u c \<notin> seen" "type c \<notin> set objectPrototypeKeys"
  shows "group_commit u c (seen, grouped) =
           Inr (insert (dedupKey u c) seen,
                grouped(bucketOf (type c) \<mapsto> the (grouped (bucketOf (type c))) @ [message c]))"
proof (cases "type c \<in> set TYPE_ORDER")
  case True
  then show ?thesis using assms getProperty_own[OF assms(1) True]
    by (simp add: group_commit_def dedupKey_def Let_def bucketOf_def)
next
  case False
  then show ?thesis
    using assms getProperty_undefined[OF assms(1,3) False] getProperty_own[OF assms(1) other_TYPE_ORDER]
    by (simp add: group_commit_def dedupKey_def Let_def bucketOf_def)
qed

lemma ownGroups_update:
  "ownGroups grouped \<Longrightarrow> t \<in> set TYPE_ORDER \<Longrightarrow> ownGroups (grouped(t \<mapsto> arr))"
  by (auto simp: ownGroups_def)

lemma ownGroups_empty: "ownGroups emptyGroups"
  by (simp add: ownGroups_def emptyGroups_def)

lemma group_commits_ok:
  assumes "ownGroups grouped" "\<forall>c\<in>set (survivors u seen cs). type c \<notin> set objectPrototypeKeys"
  shows "\<exists>seen' grouped'. group_commits u cs (seen, grouped) = Inr (seen', grouped')
           \<and> ownGroups grouped'
           \<and> (\<forall>t\<in>set TYPE_ORDER. grouped' t =
                 Some (the (grouped t)
                       @ map message (filter (\<lambda>c. bucketOf (type c) = t) (survivors u seen cs))))"
  using assms
proof (induction cs arbitrary: seen grouped)
  case Nil
  then show ?case by (auto simp: ownGroups_def)
next
  case (Cons c cs)
  show ?case
  proof (cases "dedupKey u c \<in> seen")
    case True
    then show ?thesis using Cons.IH[of grouped seen] Cons.prems
      by (simp add: group_commit_seen)
  next
    case False
    define g where "g = grouped(bucketOf (type c) \<mapsto> the (grouped (bucketOf (type c))) @ [message c])"
    from Cons.prems False have ty: "type c \<notin> set objectPrototypeKeys"
      and rest: "\<forall>x\<in>set (survivors u (insert (dedupKey u c) seen) cs). type x \<notin> set objectPrototypeKeys"
      by auto
    have step: "group_commit u c (seen, grouped) = Inr (insert (dedupKey u c) seen, g)"
      unfolding g_def by (rule group_commit_push[OF Cons.prems(1) False ty])
    have og: "ownGroups g"
      unfolding g_def by (rule ownGroups_update[OF Cons.prems(1) bucketOf_TYPE_ORDER])
    from Cons.IH[OF og rest] obtain seen' grouped' where
      r: "group_commits u cs (insert (dedupKey u c) seen, g) = Inr (seen', grouped')"
      and o: "ownGroups grouped'"
      and v: "\<forall>t\<in>set TYPE_ORDER. grouped' t =
                 Some (the (g t)
                       @ map message (filter (\<lambda>c. bucketOf (type c) = t)
                           (survivors u (insert (dedupKey u c) seen) cs)))"
      by blast
    have "\<forall>t\<in>set TYPE_ORDER. grouped' t =
            Some (the (grouped t)
                  @ map message (filter (\<lambda>c. bucketOf (type c) = t) (survivors u seen (c # cs))))"
      using v False by (auto simp: g_def)
    then show ?thesis using step r o by simp
  qed
qed

lemma group_commits_fail:
  assumes "ownGroups grouped" "\<exists>c\<in>set (survivors u seen cs). type c \<in> set objectPrototypeKeys"
  shows "group_commits u cs (seen, grouped) = Inl TypeError"
  using assms
proof (induction cs arbitrary: seen grouped)
  case Nil
  then show ?case by simp
next
  case (Cons c cs)
  show ?case
  proof (cases "dedupKey u c \<in> seen")
    case True
    then show ?thesis using Cons.IH[of grouped seen] Cons.prems
      by (simp add: group_commit_seen)
  next
    case False
    show ?thesis
    proof (cases "type c \<in> set objectPrototypeKeys")
      case True
      then show ?thesis using group_commit_inherited[OF Cons.prems(1) False True] by simp
    next
      case ty: False
      define g where "g = grouped(bucketOf (type c) \<mapsto> the (grouped (bucketOf (type c))) @ [message c])"
      from Cons.prems False ty
      have rest: "\<exists>x\<in>set (survivors u (insert (dedupKey u c) seen) cs). type x \<in> set objectPrototypeKeys"
        by auto
      have og: "ownGroups g"
        unfolding g_def by (rule ownGroups_update[OF Cons.prems(1) bucketOf_TYPE_ORDER])
      have "group_commit u c (seen, grouped) = Inr (insert (dedupKey u c) seen, g)"
        unfolding g_def by (rule group_commit_push[OF Cons.prems(1) False ty])
      then show ?thesis
        using Cons.IH[OF og rest] by simp
    qed
  qed
qed

lemma emit_groups_blocks:
  "\<forall>t\<in>set ts. grouped t = Some (f t) \<Longrightarrow>
     emit_groups grouped ts = Inr (concat (map (\<lambda>t. groupBlock t (f t)) ts))"
  by (induction ts) (auto simp: groupBlock_def)

lemma summarizeCommits_blocks:
  assumes "records \<noteq> []" "\<forall>c\<in>set (firstSeen u records). type c \<notin> set objectPrototypeKeys"
  shows "summarizeCommits u records =
           Inr (concat (map (\<lambda>t. groupBlock t
                  (map message (filter (\<lambda>c. bucketOf (type c) = t) (firstSeen u records))))
                  TYPE_ORDER))"
proof -
  from group_commits_ok[where seen="{}" and cs=records and u=u, OF ownGroups_empty] assms(2)
  obtain seen' grouped' where
    r: "group_commits u records ({}, emptyGroups) = Inr (seen', grouped')"
    and v: "\<forall>t\<in>set TYPE_ORDER. grouped' t =
              Some (the (emptyGroups t)
                    @ map message (filter (\<lambda>c. bucketOf (type c) = t) (survivors u {} records)))"
    unfolding firstSeen_survivors by blast
  have "\<forall>t\<in>set TYPE_ORDER. grouped' t =
          Some (map message (filter (\<lambda>c. bucketOf (type c) = t) (firstSeen u records)))"
    using v by (simp add: emptyGroups_def firstSeen_survivors)
  from emit_groups_blocks[OF this] r assms(1) show ?thesis
    by (simp add: summarizeCommits_def)
qed

lemma summarizeCommits_throws:
  assumes "\<exists>c\<in>set (firstSeen u records). type c \<in> set objectPrototypeKeys"
  shows "summarizeCommits u records = Inl TypeError"
proof -
  have "records \<noteq> []" using assms by (auto simp: firstSeen_def)
  then show ?thesis
    using group_commits_fail[where seen="{}" and cs=records and u=u, OF ownGroups_empty] assms
    by (simp add: summarizeCommits_def firstSeen_survivors)
qed

section \<open>Grouping: bullets and headers\<close>

lemma labels_not_bullets:
  "\<forall>l\<in>set (js ''Other'' # map snd TYPE_LABELS). \<not> isBullet (l @ js '':'')"
  by code_simp

lemma typeLabel_cases: "typeLabel t \<in> set (js ''Other'' # map snd TYPE_LABELS)"
proof (cases "map_of TYPE_LABELS t")
  case None
  then show ?thesis by (simp add: typeLabel_def)
next
  case (Some l)
  then have "(t, l) \<in> set TYPE_LABELS" by (rule map_of_SomeD)
  then have "l \<in> set (map snd TYPE_LABELS)" by force
  then show ?thesis using Some by (simp add: typeLabel_def)
qed

lemma header_not_bullet: "\<not> isBullet (typeLabel t @ js '':'')"
  using typeLabel_cases[of t] labels_not_bullets by blast

lemma bullet_isBullet: "isBullet (js ''- '' @ m)"
  by (simp add: isBullet_def)

lemma filter_bullets_groupBlock:
  "filter isBullet (groupBlock t ms) = map (\<lambda>m. js ''- '' @ m) ms"
  by (auto simp: groupBlock_def header_not_bullet filter_id_conv bullet_isBullet)

lemma filter_headers_groupBlock:
  "filter (\<lambda>l. \<not> isBullet l) (groupBlock t ms) = (if ms = [] then [] else [typeLabel t @ js '':''])"
  by (auto simp: groupBlock_def header_not_bullet filter_empty_conv bullet_isBullet)

lemma mset_filter_buckets:
  "distinct ts \<Longrightarrow>
     mset (concat (map (\<lambda>t. filter (\<lambda>x. f x = t) xs) ts)) = mset (filter (\<lambda>x. f x \<in> set ts) xs)"
proof (induction ts)
  case Nil
  then show ?case by simp
next
  case (Cons t ts)
  have "mset (filter (\<lambda>x. f x = t) xs) + mset (filter (\<lambda>x. f x \<in> set ts) xs)
        = mset (filter (\<lambda>x. f x = t \<or> f x \<in> set ts) xs)"
    using Cons.prems by (induction xs) auto
  then show ?case using Cons by simp
qed

lemma distinct_TYPE_ORDER: "distinct TYPE_ORDER"
  by code_simp

lemma concat_singletons:
  "concat (map (\<lambda>t. if P t then [] else [h t]) ts) = map h (filter (\<lambda>t. \<not> P t) ts)"
  by (induction ts) auto

lemma firstSeen_subset: "set (firstSeen u records) \<subseteq> set records"
  by (auto simp: firstSeen_def)

lemma firstSeen_Nil: "firstSeen u [] = []"
  by (simp add: firstSeen_def)

lemma bullets_of_blocks:
  "filter isBullet (concat (map (\<lambda>t. groupBlock t (map message (filter (\<lambda>c. bucketOf (type c) = t) xs))) ts))
   = concat (map (\<lambda>t. map (\<lambda>c. js ''- '' @ message c) (filter (\<lambda>c. bucketOf (type c) = t) xs)) ts)"
  by (induction ts) (simp_all add: filter_bullets_groupBlock o_def)

lemma headers_of_blocks:
  "filter (\<lambda>l. \<not> isBullet l)
     (concat (map (\<lambda>t. groupBlock t (map message (filter (\<lambda>c. bucketOf (type c) = t) xs))) ts))
   = map (\<lambda>t. typeLabel t @ js '':'') (filter (\<lambda>t. \<exists>c\<in>set xs. bucketOf (type c) = t) ts)"
  by (induction ts) (auto simp: filter_headers_groupBlock filter_empty_conv)

lemma concat_map_buckets:
  "concat (map (\<lambda>t. map g (filter (\<lambda>c. f c = t) xs)) ts)
   = map g (concat (map (\<lambda>t. filter (\<lambda>c. f c = t) xs) ts))"
  by (induction ts) simp_all

lemma mset_bullets:
  "mset (concat (map (\<lambda>t. map (\<lambda>c. js ''- '' @ message c) (filter (\<lambda>c. bucketOf (type c) = t) xs)) TYPE_ORDER))
   = mset (map (\<lambda>c. js ''- '' @ message c) xs)"
proof -
  have "mset (concat (map (\<lambda>t. filter (\<lambda>c. bucketOf (type c) = t) xs) TYPE_ORDER))
        = mset (filter (\<lambda>c. bucketOf (type c) \<in> set TYPE_ORDER) xs)"
    by (rule mset_filter_buckets[OF distinct_TYPE_ORDER])
  also have "\<dots> = mset xs"
  proof -
    have "\<forall>c\<in>set xs. bucketOf (type c) \<in> set TYPE_ORDER"
      by (intro ballI bucketOf_TYPE_ORDER)
    then have "filter (\<lambda>c. bucketOf (type c) \<in> set TYPE_ORDER) xs = xs"
      by (rule filter_True)
    then show ?thesis by (rule arg_cong)
  qed
  finally have m: "mset (concat (map (\<lambda>t. filter (\<lambda>c. bucketOf (type c) = t) xs) TYPE_ORDER)) = mset xs" .
  show ?thesis
    unfolding concat_map_buckets[of "\<lambda>c. js ''- '' @ message c" "\<lambda>c. bucketOf (type c)" xs TYPE_ORDER]
    by (simp only: mset_map m)
qed

text \<open>
  What \<open>summarizeCommits\<close> returns for a non-empty sequence: a \<open>TypeError\<close> when a
  first-seen record has a type that names a property inherited from \<open>Object.prototype\<close>,
  and else the blocks of the groups in the order of \<open>TYPE_ORDER\<close>, made of the first-seen
  records. In the second case the bullet lines are the messages of the first-seen
  records, and the header lines are the labels of the groups that are not empty, in the
  display order.
\<close>

lemma summarizeCommits_outcome:
  assumes "records \<noteq> []"
  shows "summarizeCommits u records =
           (if \<exists>c\<in>set (firstSeen u records). type c \<in> set objectPrototypeKeys
            then Inl TypeError
            else Inr (concat (map (\<lambda>t. groupBlock t
                   (map message (filter (\<lambda>c. bucketOf (type c) = t) (firstSeen u records))))
                   TYPE_ORDER)))"
  using assms summarizeCommits_blocks[of records u] summarizeCommits_throws[of u records]
  by auto

lemma summarizeCommits_bullets:
  assumes "summarizeCommits u records = Inr lines"
  shows "filter isBullet lines =
           concat (map (\<lambda>t. map (\<lambda>c. js ''- '' @ message c)
                              (filter (\<lambda>c. bucketOf (type c) = t) (firstSeen u records)))
                     TYPE_ORDER)"
    and "mset (filter isBullet lines)
         = mset (map (\<lambda>c. js ''- '' @ message c) (firstSeen u records))"
proof -
  show f: "filter isBullet lines =
           concat (map (\<lambda>t. map (\<lambda>c. js ''- '' @ message c)
                              (filter (\<lambda>c. bucketOf (type c) = t) (firstSeen u records)))
                     TYPE_ORDER)"
  proof (cases "records = []")
    case True
    then show ?thesis using assms
      by (auto simp: summarizeCommits_def firstSeen_Nil isBullet_def js_def ch_def)
  next
    case False
    from summarizeCommits_outcome[OF False, of u] assms
    have "lines = concat (map (\<lambda>t. groupBlock t
                   (map message (filter (\<lambda>c. bucketOf (type c) = t) (firstSeen u records))))
                   TYPE_ORDER)"
      by (auto split: if_splits)
    then show ?thesis by (simp only: bullets_of_blocks)
  qed
  show "mset (filter isBullet lines)
         = mset (map (\<lambda>c. js ''- '' @ message c) (firstSeen u records))"
    unfolding f by (rule mset_bullets)
qed

lemma summarizeCommits_headers:
  assumes "records \<noteq> []" "summarizeCommits u records = Inr lines"
  shows "filter (\<lambda>l. \<not> isBullet l) lines =
          map (\<lambda>t. typeLabel t @ js '':'')
            (filter (\<lambda>t. \<exists>c\<in>set (firstSeen u records). bucketOf (type c) = t) TYPE_ORDER)"
    and "subseq (filter (\<lambda>l. \<not> isBullet l) lines) (map (\<lambda>t. typeLabel t @ js '':'') TYPE_ORDER)"
proof -
  from summarizeCommits_outcome[OF assms(1), of u] assms(2)
  have b: "lines = concat (map (\<lambda>t. groupBlock t
                   (map message (filter (\<lambda>c. bucketOf (type c) = t) (firstSeen u records))))
                   TYPE_ORDER)"
    by (auto split: if_splits)
  show h: "filter (\<lambda>l. \<not> isBullet l) lines =
          map (\<lambda>t. typeLabel t @ js '':'')
            (filter (\<lambda>t. \<exists>c\<in>set (firstSeen u records). bucketOf (type c) = t) TYPE_ORDER)"
    unfolding b by (rule headers_of_blocks)
  show "subseq (filter (\<lambda>l. \<not> isBullet l) lines) (map (\<lambda>t. typeLabel t @ js '':'') TYPE_ORDER)"
    unfolding h by (intro subseq_map subseq_filter_left)
qed

text \<open>
  Claim C4 fails on the code, by the defect of C9. The log lines
  \<open>constructor: add a default\<close> and \<open>feat: add a DEFAULT\<close> are decoded to two records
  whose messages differ in letter case only. The claim has the first of them, and only
  that one, in the grouped output. \<open>grouped.constructor\<close> is the inherited function
  \<open>Object\<close>, so \<open>summarizeCommits\<close> throws a \<open>TypeError\<close> at the first record and there
  is no output.
\<close>

theorem summarizeCommits_dedup_throws:
  "parseGitLogWithNumstat u
     (js ''__COMMIT__'' @ [0x001F] @ js ''constructor: add a default'' @ [0x000A]
      @ js ''__COMMIT__'' @ [0x001F] @ js ''feat: add a DEFAULT'')
     = Inr [\<lparr>type = js ''constructor'', message = js ''Add a default'', files_changed = 0\<rparr>,
            \<lparr>type = js ''feat'', message = js ''Add a DEFAULT'', files_changed = 0\<rparr>]
   \<and> toLowerCase u (js ''Add a default'') = toLowerCase u (js ''Add a DEFAULT'')
   \<and> summarizeCommits u
        [\<lparr>type = js ''constructor'', message = js ''Add a default'', files_changed = 0\<rparr>,
         \<lparr>type = js ''feat'', message = js ''Add a DEFAULT'', files_changed = 0\<rparr>]
       = Inl TypeError"
  by code_simp

text \<open>
  Claim C8 fails on the code, by the defect of C9. The records of the log lines
  \<open>constructor: add a default\<close> and \<open>feat: add login\<close> are a non-empty sequence, with the
  groups \<open>feat\<close> and \<open>other\<close> not empty, so that the claim has the headers \<open>Features:\<close> and
  \<open>Other:\<close> emitted, in this order, for both orders of the two records.
  \<open>summarizeCommits\<close> throws a \<open>TypeError\<close> for both and emits no header.
\<close>

theorem summarizeCommits_header_order_throws:
  "summarizeCommits u
     [\<lparr>type = js ''constructor'', message = js ''Add a default'', files_changed = 0\<rparr>,
      \<lparr>type = js ''feat'', message = js ''Add login'', files_changed = 0\<rparr>]
     = Inl TypeError
   \<and> summarizeCommits u
     [\<lparr>type = js ''feat'', message = js ''Add login'', files_changed = 0\<rparr>,
      \<lparr>type = js ''constructor'', message = js ''Add a default'', files_changed = 0\<rparr>]
     = Inl TypeError
   \<and> bucketOf (js ''constructor'') = js ''other''
   \<and> bucketOf (js ''feat'') = js ''feat''"
  by code_simp

text \<open>
  Claim C9 fails on the code. The subject \<open>constructor: add a default\<close> is decoded to a
  record of type \<open>constructor\<close>, a string outside the fixed tag set. \<open>grouped.constructor\<close>
  is the inherited, truthy function \<open>Object\<close>, so the record is not redirected to the
  bucket \<open>other\<close>, and \<open>grouped[t].push\<close> throws a \<open>TypeError\<close>: nothing is listed under
  \<open>Other:\<close>.
\<close>

theorem summarizeCommits_inherited_type:
  "parseGitLogWithNumstat u (js ''__COMMIT__'' @ [0x001F] @ js ''constructor: add a default'')
     = Inr [\<lparr>type = js ''constructor'', message = js ''Add a default'', files_changed = 0\<rparr>]
   \<and> js ''constructor'' \<notin> set TYPE_ORDER
   \<and> summarizeCommits u
        [\<lparr>type = js ''constructor'', message = js ''Add a default'', files_changed = 0\<rparr>]
       = Inl TypeError"
  by code_simp

section \<open>The worked example\<close>

text \<open>
  Claim C5. The three subjects, each on a boundary line of its own and with no stat lines,
  are decoded to the three records of the claim, and grouping the records gives the six
  lines of the claim.
\<close>

theorem decode_then_group_example:
  "parseGitLogWithNumstat u
     (join [0x000A]
        (map (\<lambda>subject. js ''__COMMIT__'' @ [0x001F] @ subject)
           [js ''feat: add login'', js ''fix(auth): handle null token.'',
            js ''weird subject line'']))
     = Inr [\<lparr>type = js ''feat'', message = js ''Add login'', files_changed = 0\<rparr>,
            \<lparr>type = js ''fix'', message = js ''auth: Handle null token'', files_changed = 0\<rparr>,
            \<lparr>type = js ''other'', message = js ''Weird subject line'', files_changed = 0\<rparr>]
   \<and> parseCommitSubject u (js ''feat: add login'') = (js ''feat'', js ''Add login'')
   \<and> parseCommitSubject u (js ''fix(auth): handle null token.'')
       = (js ''fix'', js ''auth: Handle null token'')
   \<and> parseCommitSubject u (js ''weird subject line'') = (js ''other'', js ''Weird subject line'')
   \<and> summarizeCommits u
        [\<lparr>type = js ''feat'', message = js ''Add login'', files_changed = 0\<rparr>,
         \<lparr>type = js ''fix'', message = js ''auth: Handle null token'', files_changed = 0\<rparr>,
         \<lparr>type = js ''other'', message = js ''Weird subject line'', files_changed = 0\<rparr>]
       = Inr [js ''Features:'', js ''- Add login'', js ''Fixes:'',
              js ''- auth: Handle null token'', js ''Other:'', js ''- Weird subject line'']"
  by code_simp

section \<open>The repository summarizer and the renderer\<close>

lemma foldl_files_changed:
  "foldl (\<lambda>sum cmt. sum + files_changed cmt) a cs = a + sum_list (map files_changed cs)"
  by (induction cs arbitrary: a) simp_all

text \<open>
  Claim C7, as amended. \<open>path.resolve\<close> stands before \<open>try\<close>: when it throws, which it
  does for a relative path when the working directory has been removed, \<open>getRepoSummary\<close>
  throws the same error. When \<open>path.resolve\<close> returns a path, \<open>getRepoSummary\<close> returns:
  the sentinel \<open>null\<close> when git fails on that path, and when git returns its output, a
  summary whose commits are the records decoded from the trimmed output, whose
  \<open>commit_count\<close> is their number and whose \<open>files_changed\<close> is the sum of theirs.
\<close>

theorem getRepoSummary_outcome:
  "(\<forall>err. resolve e repoPath = Inl err \<longrightarrow> getRepoSummary e repoPath = Inl err)
   \<and> (\<forall>absPath. resolve e repoPath = Inr absPath \<longrightarrow>
        (\<forall>err. execGitLog e absPath = Inl err \<longrightarrow> getRepoSummary e repoPath = Inr None)
        \<and> (\<forall>out. execGitLog e absPath = Inr out \<longrightarrow>
             (\<exists>s. getRepoSummary e repoPath = Inr (Some s)
                \<and> parseGitLogWithNumstat (unicode_tables e) (trim out) = Inr (commits s)
                \<and> commit_count s = length (commits s)
                \<and> repo_files_changed s = sum_list (map files_changed (commits s)))))"
proof (intro conjI allI impI)
  fix err assume "resolve e repoPath = Inl err"
  then show "getRepoSummary e repoPath = Inl err"
    by (simp add: getRepoSummary_def)
next
  fix absPath err
  assume "resolve e repoPath = Inr absPath" "execGitLog e absPath = Inl err"
  then show "getRepoSummary e repoPath = Inr None"
    by (simp add: getRepoSummary_def Let_def)
next
  fix absPath out
  assume "resolve e repoPath = Inr absPath" "execGitLog e absPath = Inr out"
  then show "\<exists>s. getRepoSummary e repoPath = Inr (Some s)
           \<and> parseGitLogWithNumstat (unicode_tables e) (trim out) = Inr (commits s)
           \<and> commit_count s = length (commits s)
           \<and> repo_files_changed s = sum_list (map files_changed (commits s))"
    by (simp add: getRepoSummary_def Let_def parseGitLogWithNumstat_recordsOf foldl_files_changed)
qed

text \<open>
  Claim C7 as stated has \<open>getRepoSummary\<close> never raise. In a process whose working
  directory has been removed, \<open>path.resolve\<close> returns every absolute path and throws a
  system error for every relative one; there \<open>getRepoSummary('app')\<close> throws that error,
  although git would answer for every directory.
\<close>

theorem getRepoSummary_raises_counterexample:
  "\<forall>u. getRepoSummary
     \<lparr>unicode_tables = u,
      resolve = (\<lambda>p. if startsWith p (js ''/'') then Inr p else Inl SystemError),
      basename = (\<lambda>p. drop 6 p), cwd = Inl SystemError,
      execGitLog = (\<lambda>p. Inr []),
      config_format = None, config_team = None, config_repos = None,
      answer_today = [], answer_blockers = []\<rparr> (js ''app'')
     = Inl SystemError"
proof
  fix u
  show "getRepoSummary
     \<lparr>unicode_tables = u,
      resolve = (\<lambda>p. if startsWith p (js ''/'') then Inr p else Inl SystemError),
      basename = (\<lambda>p. drop 6 p), cwd = Inl SystemError,
      execGitLog = (\<lambda>p. Inr []),
      config_format = None, config_team = None, config_repos = None,
      answer_today = [], answer_blockers = []\<rparr> (js ''app'')
     = Inl SystemError"
    by code_simp
qed

theorem getRepoSummary_outcome_witness:
  "\<forall>u.
   getRepoSummary
     \<lparr>unicode_tables = u,
      resolve = (\<lambda>p. if startsWith p (js ''/'') then Inr p
                      else if p = js ''gone'' then Inl SystemError else Inr (js ''/work/'' @ p)),
      basename = (\<lambda>p. drop 6 p), cwd = Inr (js ''/work''),
      execGitLog = (\<lambda>p. if p = js ''/work/app''
         then Inr (js ''__COMMIT__'' @ [0x001F] @ js ''feat: add login'' @ [0x000A]
                   @ js ''3'' @ [0x0009] @ js ''1'' @ [0x0009] @ js ''login.js'' @ [0x000A])
         else Inl ExecError),
      config_format = None, config_team = None, config_repos = None,
      answer_today = [], answer_blockers = []\<rparr> (js ''app'')
     = Inr (Some \<lparr>name = js ''app'', path = js ''/work/app'',
             commits = [\<lparr>type = js ''feat'', message = js ''Add login'', files_changed = 1\<rparr>],
             commit_count = 1, repo_files_changed = 1\<rparr>)
   \<and> getRepoSummary
     \<lparr>unicode_tables = u,
      resolve = (\<lambda>p. if startsWith p (js ''/'') then Inr p
                      else if p = js ''gone'' then Inl SystemError else Inr (js ''/work/'' @ p)),
      basename = (\<lambda>p. drop 6 p), cwd = Inr (js ''/work''),
      execGitLog = (\<lambda>p. if p = js ''/work/app''
         then Inr (js ''__COMMIT__'' @ [0x001F] @ js ''feat: add login'' @ [0x000A]
                   @ js ''3'' @ [0x0009] @ js ''1'' @ [0x0009] @ js ''login.js'' @ [0x000A])
         else Inl ExecError),
      config_format = None, config_team = None, config_repos = None,
      answer_today = [], answer_blockers = []\<rparr> (js ''notes'')
     = Inr None
   \<and> getRepoSummary
     \<lparr>unicode_tables = u,
      resolve = (\<lambda>p. if startsWith p (js ''/'') then Inr p
                      else if p = js ''gone'' then Inl SystemError else Inr (js ''/work/'' @ p)),
      basename = (\<lambda>p. drop 6 p), cwd = Inr (js ''/work''),
      execGitLog = (\<lambda>p. if p = js ''/work/app''
         then Inr (js ''__COMMIT__'' @ [0x001F] @ js ''feat: add login'' @ [0x000A]
                   @ js ''3'' @ [0x0009] @ js ''1'' @ [0x0009] @ js ''login.js'' @ [0x000A])
         else Inl ExecError),
      config_format = None, config_team = None, config_repos = None,
      answer_today = [], answer_blockers = []\<rparr> (js ''gone'')
     = Inl SystemError"
proof
  fix u
  define out where "out = js ''__COMMIT__'' @ [0x001F] @ js ''feat: add login'' @ [0x000A]
                   @ js ''3'' @ [0x0009] @ js ''1'' @ [0x0009] @ js ''login.js'' @ [0x000A]"
  define e where "e = \<lparr>unicode_tables = u,
      resolve = (\<lambda>p. if startsWith p (js ''/'') then Inr p
                      else if p = js ''gone'' then Inl SystemError else Inr (js ''/work/'' @ p)),
      basename = (\<lambda>p. drop 6 p), cwd = Inr (js ''/work'') :: error + jstring,
      execGitLog = (\<lambda>p. if p = js ''/work/app'' then Inr out else Inl ExecError),
      config_format = None, config_team = None, config_repos = None,
      answer_today = [], answer_blockers = []\<rparr>"
  have r1: "resolve e (js ''app'') = Inr (js ''/work/app'')"
    unfolding e_def by code_simp
  have r2: "resolve e (js ''notes'') = Inr (js ''/work/notes'')"
    unfolding e_def by code_simp
  have r3: "resolve e (js ''gone'') = Inl SystemError"
    unfolding e_def by code_simp
  have g: "execGitLog e (js ''/work/app'') = Inr out" by (simp add: e_def)
  have f: "execGitLog e (js ''/work/notes'') = Inl ExecError"
    unfolding e_def out_def by code_simp
  have ut: "unicode_tables e = u" by (simp add: e_def)
  have b: "basename e (js ''/work/app'') = js ''app''"
    unfolding e_def by code_simp
  have p: "parseGitLogWithNumstat u (trim out)
           = Inr [\<lparr>type = js ''feat'', message = js ''Add login'', files_changed = 1\<rparr>]"
    unfolding out_def by code_simp
  from getRepoSummary_outcome[of e "js ''app''"] r1 g obtain s where
    s: "getRepoSummary e (js ''app'') = Inr (Some s)"
    and c: "parseGitLogWithNumstat (unicode_tables e) (trim out) = Inr (commits s)"
    and n: "commit_count s = length (commits s)"
    and t: "repo_files_changed s = sum_list (map files_changed (commits s))"
    by blast
  from c p ut
  have cs: "commits s = [\<lparr>type = js ''feat'', message = js ''Add login'', files_changed = 1\<rparr>]"
    by simp
  have ne: "js ''app'' \<noteq> []" by (simp add: js_def)
  have nm: "name s = js ''app''" "path s = js ''/work/app''"
    using s r1 g b ne by (auto simp: getRepoSummary_def Let_def split: sum.splits)
  have "s = \<lparr>name = js ''app'', path = js ''/work/app'',
             commits = [\<lparr>type = js ''feat'', message = js ''Add login'', files_changed = 1\<rparr>],
             commit_count = 1, repo_files_changed = 1\<rparr>"
    using cs n t nm by (cases s) simp
  with s have 1: "getRepoSummary e (js ''app'') = Inr (Some \<lparr>name = js ''app'', path = js ''/work/app'',
             commits = [\<lparr>type = js ''feat'', message = js ''Add login'', files_changed = 1\<rparr>],
             commit_count = 1, repo_files_changed = 1\<rparr>)"
    by simp
  from getRepoSummary_outcome[of e "js ''notes''"] r2 f
  have 2: "getRepoSummary e (js ''notes'') = Inr None"
    by blast
  from getRepoSummary_outcome[of e "js ''gone''"] r3
  have 3: "getRepoSummary e (js ''gone'') = Inl SystemError"
    by blast
  from 1 2 3 show "getRepoSummary
     \<lparr>unicode_tables = u,
      resolve = (\<lambda>p. if startsWith p (js ''/'') then Inr p
                      else if p = js ''gone'' then Inl SystemError else Inr (js ''/work/'' @ p)),
      basename = (\<lambda>p. drop 6 p), cwd = Inr (js ''/work''),
      execGitLog = (\<lambda>p. if p = js ''/work/app''
         then Inr (js ''__COMMIT__'' @ [0x001F] @ js ''feat: add login'' @ [0x000A]
                   @ js ''3'' @ [0x0009] @ js ''1'' @ [0x0009] @ js ''login.js'' @ [0x000A])
         else Inl ExecError),
      config_format = None, config_team = None, config_repos = None,
      answer_today = [], answer_blockers = []\<rparr> (js ''app'')
     = Inr (Some \<lparr>name = js ''app'', path = js ''/work/app'',
             commits = [\<lparr>type = js ''feat'', message = js ''Add login'', files_changed = 1\<rparr>],
             commit_count = 1, repo_files_changed = 1\<rparr>)
   \<and> getRepoSummary
     \<lparr>unicode_tables = u,
      resolve = (\<lambda>p. if startsWith p (js ''/'') then Inr p
                      else if p = js ''gone'' then Inl SystemError else Inr (js ''/work/'' @ p)),
      basename = (\<lambda>p. drop 6 p), cwd = Inr (js ''/work''),
      execGitLog = (\<lambda>p. if p = js ''/work/app''
         then Inr (js ''__COMMIT__'' @ [0x001F] @ js ''feat: add login'' @ [0x000A]
                   @ js ''3'' @ [0x0009] @ js ''1'' @ [0x0009] @ js ''login.js'' @ [0x000A])
         else Inl ExecError),
      config_format = None, config_team = None, config_repos = None,
      answer_today = [], answer_blockers = []\<rparr> (js ''notes'')
     = Inr None
   \<and> getRepoSummary
     \<lparr>unicode_tables = u,
      resolve = (\<lambda>p. if startsWith p (js ''/'') then Inr p
                      else if p = js ''gone'' then Inl SystemError else Inr (js ''/work/'' @ p)),
      basename = (\<lambda>p. drop 6 p), cwd = Inr (js ''/work''),
      execGitLog = (\<lambda>p. if p = js ''/work/app''
         then Inr (js ''__COMMIT__'' @ [0x001F] @ js ''feat: add login'' @ [0x000A]
                   @ js ''3'' @ [0x0009] @ js ''1'' @ [0x0009] @ js ''login.js'' @ [0x000A])
         else Inl ExecError),
      config_format = None, config_team = None, config_repos = None,
      answer_today = [], answer_blockers = []\<rparr> (js ''gone'')
     = Inl SystemError"
    unfolding e_def out_def by blast
qed

text \<open>
  Claim C10. With no repository summary, and a format of the three, \<open>formatOutput\<close>
  returns, and the section of yesterday is the one line \<open>No repositories scanned\<close> between
  the header of the section and the line of today: as it is for \<open>plain\<close> and \<open>markdown\<close>,
  and with the list prefix \<open>- \<close> for \<open>slack\<close>.
\<close>

theorem formatOutput_no_repositories:
  "format \<in> {js ''plain'', js ''slack'', js ''markdown''} \<longrightarrow>
   formatOutput u [] today blockers format team =
     Inr (join [0x000A]
       (if format = js ''slack'' then
          (if truthy team then [js ''*Team:* '' @ the team] else [])
          @ [js ''*Yesterday:*'', js ''- No repositories scanned'',
             js ''*Today:* '' @ today,
             js ''*Blockers:* '' @ (if blockers = [] then js ''None'' else blockers)]
        else if format = js ''markdown'' then
          [js ''### Daily Standup'', []]
          @ (if truthy team then [js ''**Team:**'', the team, []] else [])
          @ [js ''**Yesterday:**'', js ''No repositories scanned'',
             [], js ''**Today:**'', today, [], js ''**Blockers:**'',
             (if blockers = [] then js ''None'' else blockers)]
        else
          (if truthy team then [js ''Team: '' @ the team] else [])
          @ [js ''Yesterday:'', js ''No repositories scanned'',
             js ''Today: '' @ today,
             js ''Blockers: '' @ (if blockers = [] then js ''None'' else blockers)]))"
proof -
  have s: "slack_line (js ''No repositories scanned'') = js ''- No repositories scanned''"
    by code_simp
  have n: "js ''No repositories scanned'' \<noteq> []"
    by (simp add: js_def)
  show ?thesis
    by (simp add: formatOutput_def Let_def s n)
qed

theorem formatOutput_no_repositories_witness:
  "(\<forall>u. formatOutput u [] (js ''Ship the release'') [] (js ''slack'') (Some (js ''Platform''))
     = Inr (join [0x000A]
         [js ''*Team:* Platform'', js ''*Yesterday:*'', js ''- No repositories scanned'',
          js ''*Today:* Ship the release'', js ''*Blockers:* None'']))
   \<and> (\<forall>u. formatOutput u [] (js ''Ship the release'') (js ''CI is red'') (js ''markdown'') None
     = Inr (join [0x000A]
         [js ''### Daily Standup'', [], js ''**Yesterday:**'', js ''No repositories scanned'', [],
          js ''**Today:**'', js ''Ship the release'', [], js ''**Blockers:**'', js ''CI is red'']))
   \<and> (\<forall>u. formatOutput u [] (js ''Ship the release'') (js ''CI is red'') (js ''plain'') (Some [])
     = Inr (join [0x000A]
         [js ''Yesterday:'', js ''No repositories scanned'', js ''Today: Ship the release'',
          js ''Blockers: CI is red'']))"
proof -
  have d: "js ''markdown'' \<noteq> js ''slack''" "js ''plain'' \<noteq> js ''slack''"
    "js ''plain'' \<noteq> js ''markdown''" "js ''CI is red'' \<noteq> []" "js ''Platform'' \<noteq> []"
    by code_simp+
  have c: "js ''*Team:* '' @ js ''Platform'' = js ''*Team:* Platform''"
    "js ''*Today:* '' @ js ''Ship the release'' = js ''*Today:* Ship the release''"
    "js ''*Blockers:* '' @ js ''None'' = js ''*Blockers:* None''"
    "js ''Today: '' @ js ''Ship the release'' = js ''Today: Ship the release''"
    "js ''Blockers: '' @ js ''CI is red'' = js ''Blockers: CI is red''"
    by (simp_all add: js_def)
  from formatOutput_no_repositories[of "js ''slack''" _ "js ''Ship the release''" "[]"
      "Some (js ''Platform'')"]
  have 1: "formatOutput u [] (js ''Ship the release'') [] (js ''slack'') (Some (js ''Platform''))
     = Inr (join [0x000A]
         [js ''*Team:* Platform'', js ''*Yesterday:*'', js ''- No repositories scanned'',
          js ''*Today:* Ship the release'', js ''*Blockers:* None''])" for u
    by (simp add: truthy_def d c)
  from formatOutput_no_repositories[of "js ''markdown''" _ "js ''Ship the release''"
      "js ''CI is red''" None]
  have 2: "formatOutput u [] (js ''Ship the release'') (js ''CI is red'') (js ''markdown'') None
     = Inr (join [0x000A]
         [js ''### Daily Standup'', [], js ''**Yesterday:**'', js ''No repositories scanned'', [],
          js ''**Today:**'', js ''Ship the release'', [], js ''**Blockers:**'', js ''CI is red''])"
    for u
    by (simp add: truthy_def d c)
  from formatOutput_no_repositories[of "js ''plain''" _ "js ''Ship the release''"
      "js ''CI is red''" "Some []"]
  have 3: "formatOutput u [] (js ''Ship the release'') (js ''CI is red'') (js ''plain'') (Some [])
     = Inr (join [0x000A]
         [js ''Yesterday:'', js ''No repositories scanned'', js ''Today: Ship the release'',
          js ''Blockers: CI is red''])" for u
    by (simp add: truthy_def d c)
  from 1 2 3 show ?thesis by blast
qed

section \<open>Unknown formats\<close>

lemma main_format:
  "(case orElse (cli_format parsed) (orElse (config_format e) (Some (js ''plain''))) of
      Some f \<Rightarrow> f | None \<Rightarrow> js ''plain'') = chosenFormat e parsed"
  by (auto simp: orElse_def chosenFormat_def truthy_def split: option.splits)

lemma main_rejects:
  assumes "parseArgs (unicode_tables e) argv = Inr parsed"
    "chosenFormat e parsed \<notin> set validFormats"
  shows "main e argv = ([], Exit 1)"
  using assms by (simp add: main_def main_format Let_def)

lemma main_Done:
  assumes "snd (main e argv) = Done output"
  shows "\<exists>rs today blockers format team.
           format \<in> set validFormats
           \<and> formatOutput (unicode_tables e) rs today blockers format team = Inr output"
proof (cases "parseArgs (unicode_tables e) argv")
  case (Inl status)
  with assms show ?thesis by (simp add: main_def)
next
  case (Inr parsed)
  show ?thesis
  proof (cases "chosenFormat e parsed \<in> set validFormats")
    case False
    with assms Inr show ?thesis by (simp add: main_rejects)
  next
    case True
    with assms Inr have "\<exists>rs today blockers team.
        formatOutput (unicode_tables e) rs today blockers (chosenFormat e parsed) team
          = Inr output"
      unfolding main_def main_format Let_def
      by (auto split: sum.splits prod.splits)
    with True show ?thesis by blast
  qed
qed

lemma plain_not_slack_markdown:
  "js ''plain'' \<noteq> js ''slack''" "js ''plain'' \<noteq> js ''markdown''"
  by code_simp+

lemma formatOutput_fallback:
  assumes "format \<notin> {js ''slack'', js ''markdown''}"
  shows "formatOutput u rs today blockers format team
         = formatOutput u rs today blockers (js ''plain'') team"
  using assms by (simp add: formatOutput_def Let_def plain_not_slack_markdown split: sum.splits)

lemma parseArgs_format:
  "tag \<noteq> [] \<Longrightarrow> parseArgs u [js ''--format'', tag] =
     Inr \<lparr>cli_format = Some (toLowerCase u tag), cli_team = None, cli_noCopy = False,
          cli_repos = []\<rparr>"
  by (simp add: parseArgs_def)

lemma toLowerCase_Nil_iff: "toLowerCase u s = [] \<longleftrightarrow> s = []"
  by (auto simp: toLowerCase_def split: prod.splits)

text \<open>
  Claim C6, as amended. The format of a run is the value of \<open>--format\<close> or \<open>-f\<close> in lower
  case when the command line gives a non-empty one, else the format of the configuration
  when that is non-empty, else \<open>plain\<close>. When \<open>parseArgs\<close> returns (no \<open>--help\<close> ended the
  run) and the format of the run is none of \<open>plain\<close>, \<open>slack\<close> and \<open>markdown\<close>, \<open>main\<close> ends
  with status 1 and has called \<open>getRepoSummary\<close> on no path; so for \<open>--format tag\<close> alone
  with a non-empty tag that is none of the three in lower case. A run that ends with a
  standup has rendered it with one of the three formats. The renderer itself rejects
  nothing: for every tag but \<open>slack\<close> and \<open>markdown\<close> \<open>formatOutput\<close> returns what it returns
  for \<open>plain\<close>.
\<close>

theorem main_rejects_unknown_format:
  "(parseArgs (unicode_tables e) argv = Inr parsed \<and> cli_format parsed = Some f \<and> f \<noteq> []
      \<and> f \<notin> set validFormats \<longrightarrow> main e argv = ([], Exit 1))
   \<and> (parseArgs (unicode_tables e) argv = Inr parsed \<and> \<not> truthy (cli_format parsed)
        \<and> config_format e = Some f \<and> f \<noteq> [] \<and> f \<notin> set validFormats \<longrightarrow>
        main e argv = ([], Exit 1))
   \<and> (tag \<noteq> [] \<and> toLowerCase (unicode_tables e) tag \<notin> set validFormats \<longrightarrow>
        main e [js ''--format'', tag] = ([], Exit 1))
   \<and> (snd (main e argv) = Done output \<longrightarrow>
        (\<exists>rs today blockers format team.
           format \<in> set validFormats
           \<and> formatOutput (unicode_tables e) rs today blockers format team = Inr output))
   \<and> (format \<notin> {js ''slack'', js ''markdown''} \<longrightarrow>
        formatOutput u rs today blockers format team
          = formatOutput u rs today blockers (js ''plain'') team)"
proof (intro conjI impI)
  assume "parseArgs (unicode_tables e) argv = Inr parsed \<and> cli_format parsed = Some f \<and> f \<noteq> []
      \<and> f \<notin> set validFormats"
  then show "main e argv = ([], Exit 1)"
    using main_rejects[of e argv parsed] by (simp add: chosenFormat_def truthy_def)
next
  assume "parseArgs (unicode_tables e) argv = Inr parsed \<and> \<not> truthy (cli_format parsed)
        \<and> config_format e = Some f \<and> f \<noteq> [] \<and> f \<notin> set validFormats"
  then show "main e argv = ([], Exit 1)"
    using main_rejects[of e argv parsed] by (simp add: chosenFormat_def truthy_def)
next
  assume a: "tag \<noteq> [] \<and> toLowerCase (unicode_tables e) tag \<notin> set validFormats"
  then have "toLowerCase (unicode_tables e) tag \<noteq> []" by (simp add: toLowerCase_Nil_iff)
  then show "main e [js ''--format'', tag] = ([], Exit 1)"
    using a main_rejects[OF parseArgs_format, of tag e]
    by (simp add: chosenFormat_def truthy_def)
next
  assume "snd (main e argv) = Done output"
  then show "\<exists>rs today blockers format team.
           format \<in> set validFormats
           \<and> formatOutput (unicode_tables e) rs today blockers format team = Inr output"
    by (rule main_Done)
next
  assume "format \<notin> {js ''slack'', js ''markdown''}"
  then show "formatOutput u rs today blockers format team
          = formatOutput u rs today blockers (js ''plain'') team"
    by (rule formatOutput_fallback)
qed

text \<open>
  Claim C6 as stated has the renderer never fall back to a default format. For the tag
  \<open>xml\<close>, which is none of the three, \<open>formatOutput\<close> returns the plain report.
\<close>

theorem formatOutput_fallback_counterexample:
  "js ''xml'' \<notin> set validFormats
   \<and> (\<forall>u. formatOutput u [] (js ''Ship the release'') (js ''None'') (js ''xml'') None
       = Inr (join [0x000A]
           [js ''Yesterday:'', js ''No repositories scanned'', js ''Today: Ship the release'',
            js ''Blockers: None'']))
   \<and> (\<forall>u. formatOutput u [] (js ''Ship the release'') (js ''None'') (js ''xml'') None
       = formatOutput u [] (js ''Ship the release'') (js ''None'') (js ''plain'') None)"
proof -
  have 1: "js ''xml'' \<notin> set validFormats" by code_simp
  have 2: "formatOutput u [] (js ''Ship the release'') (js ''None'') (js ''xml'') None
       = Inr (join [0x000A]
           [js ''Yesterday:'', js ''No repositories scanned'', js ''Today: Ship the release'',
            js ''Blockers: None''])" for u
    by code_simp
  have 3: "formatOutput u [] (js ''Ship the release'') (js ''None'') (js ''xml'') None
       = formatOutput u [] (js ''Ship the release'') (js ''None'') (js ''plain'') None" for u
    by code_simp
  from 1 2 3 show ?thesis by blast
qed

theorem main_rejects_unknown_format_witness:
  "\<forall>u.
   main \<lparr>unicode_tables = u, resolve = (\<lambda>p. Inr (js ''/work/'' @ p)),
         basename = (\<lambda>p. drop 6 p), cwd = Inr (js ''/work''),
         execGitLog = (\<lambda>p. Inl ExecError),
         config_format = Some (js ''html''), config_team = None, config_repos = None,
         answer_today = js ''Ship the release'', answer_blockers = []\<rparr>
        [js ''--repo'', js ''app'', js ''--format'', js ''XML'']
     = ([], Exit 1)
   \<and> main \<lparr>unicode_tables = u, resolve = (\<lambda>p. Inr (js ''/work/'' @ p)),
         basename = (\<lambda>p. drop 6 p), cwd = Inr (js ''/work''),
         execGitLog = (\<lambda>p. Inl ExecError),
         config_format = Some (js ''html''), config_team = None, config_repos = None,
         answer_today = js ''Ship the release'', answer_blockers = []\<rparr>
        [js ''--repo'', js ''app'']
     = ([], Exit 1)
   \<and> main \<lparr>unicode_tables = u, resolve = (\<lambda>p. Inr (js ''/work/'' @ p)),
         basename = (\<lambda>p. drop 6 p), cwd = Inr (js ''/work''),
         execGitLog = (\<lambda>p. Inl ExecError),
         config_format = Some (js ''html''), config_team = None, config_repos = None,
         answer_today = js ''Ship the release'', answer_blockers = []\<rparr>
        [js ''--format'', js ''Xml'']
     = ([], Exit 1)
   \<and> formatOutput u [] (js ''Ship the release'') (js ''None'') (js ''xml'') None
       = formatOutput u [] (js ''Ship the release'') (js ''None'') (js ''plain'') None
   \<and> main \<lparr>unicode_tables = u, resolve = (\<lambda>p. Inr (js ''/work/'' @ p)),
         basename = (\<lambda>p. drop 6 p), cwd = Inr (js ''/work''),
         execGitLog = (\<lambda>p. Inl ExecError),
         config_format = Some (js ''html''), config_team = None, config_repos = None,
         answer_today = js ''Ship the release'', answer_blockers = []\<rparr>
        [js ''--repo'', js ''app'', js ''-f'', js ''Slack'']
       = ([js ''/work/app''],
          Done (join [0x000A]
           [js ''*Yesterday:*'', js ''- No repositories scanned'',
            js ''*Today:* Ship the release'', js ''*Blockers:* None'']))
   \<and> (\<exists>rs today blockers format team.
         format \<in> set validFormats
         \<and> formatOutput u rs today blockers format team
             = Inr (join [0x000A]
                 [js ''*Yesterday:*'', js ''- No repositories scanned'',
                  js ''*Today:* Ship the release'', js ''*Blockers:* None'']))"
proof
  fix u
  define e where "e = \<lparr>unicode_tables = u,
         resolve = (\<lambda>p. Inr (js ''/work/'' @ p) :: error + jstring),
         basename = (\<lambda>p. drop 6 p), cwd = Inr (js ''/work'') :: error + jstring,
         execGitLog = (\<lambda>p. Inl ExecError :: error + jstring),
         config_format = Some (js ''html''), config_team = None, config_repos = None,
         answer_today = js ''Ship the release'', answer_blockers = []\<rparr>"
  have ut: "unicode_tables e = u" by (simp add: e_def)
  have cf: "config_format e = Some (js ''html'')" by (simp add: e_def)
  have p1: "parseArgs u [js ''--repo'', js ''app'', js ''--format'', js ''XML'']
            = Inr \<lparr>cli_format = Some (js ''xml''), cli_team = None, cli_noCopy = False,
                   cli_repos = [js ''app'']\<rparr>"
    by code_simp
  have p2: "parseArgs u [js ''--repo'', js ''app'']
            = Inr \<lparr>cli_format = None, cli_team = None, cli_noCopy = False,
                   cli_repos = [js ''app'']\<rparr>"
    by code_simp
  have v: "js ''xml'' \<notin> set validFormats" "js ''html'' \<notin> set validFormats"
    "toLowerCase u (js ''Xml'') \<notin> set validFormats"
    "js ''xml'' \<noteq> []" "js ''html'' \<noteq> []" "js ''Xml'' \<noteq> []"
    "js ''xml'' \<notin> {js ''slack'', js ''markdown''}"
    by code_simp+
  from main_rejects_unknown_format[of e "[js ''--repo'', js ''app'', js ''--format'', js ''XML'']"
      "\<lparr>cli_format = Some (js ''xml''), cli_team = None, cli_noCopy = False,
        cli_repos = [js ''app'']\<rparr>"
      "js ''xml''"] p1 v ut
  have 1: "main e [js ''--repo'', js ''app'', js ''--format'', js ''XML''] = ([], Exit 1)"
    by simp
  from main_rejects_unknown_format[of e "[js ''--repo'', js ''app'']"
      "\<lparr>cli_format = None, cli_team = None, cli_noCopy = False, cli_repos = [js ''app'']\<rparr>"
      "js ''html''"] p2 v ut cf
  have 2: "main e [js ''--repo'', js ''app''] = ([], Exit 1)"
    by (simp add: truthy_def)
  from main_rejects_unknown_format[of e _ _ _ "js ''Xml''"] v ut
  have 3: "main e [js ''--format'', js ''Xml''] = ([], Exit 1)"
    by simp
  from main_rejects_unknown_format[where format = "js ''xml''" and u = u and rs = "[]"
      and today = "js ''Ship the release''" and blockers = "js ''None''" and team = None] v
  have 4: "formatOutput u [] (js ''Ship the release'') (js ''None'') (js ''xml'') None
       = formatOutput u [] (js ''Ship the release'') (js ''None'') (js ''plain'') None"
    by blast
  have 5: "main e [js ''--repo'', js ''app'', js ''-f'', js ''Slack'']
       = ([js ''/work/app''],
          Done (join [0x000A]
           [js ''*Yesterday:*'', js ''- No repositories scanned'',
            js ''*Today:* Ship the release'', js ''*Blockers:* None'']))"
    unfolding e_def by code_simp
  then have s5: "snd (main e [js ''--repo'', js ''app'', js ''-f'', js ''Slack''])
       = Done (join [0x000A]
           [js ''*Yesterday:*'', js ''- No repositories scanned'',
            js ''*Today:* Ship the release'', js ''*Blockers:* None''])"
    by simp
  from main_rejects_unknown_format[of e "[js ''--repo'', js ''app'', js ''-f'', js ''Slack'']"] s5 ut
  have 6: "\<exists>rs today blockers format team.
         format \<in> set validFormats
         \<and> formatOutput u rs today blockers format team
             = Inr (join [0x000A]
                 [js ''*Yesterday:*'', js ''- No repositories scanned'',
                  js ''*Today:* Ship the release'', js ''*Blockers:* None''])"
    by blast
  from 1 2 3 4 5 6
  show "main \<lparr>unicode_tables = u, resolve = (\<lambda>p. Inr (js ''/work/'' @ p)),
         basename = (\<lambda>p. drop 6 p), cwd = Inr (js ''/work''),
         execGitLog = (\<lambda>p. Inl ExecError),
         config_format = Some (js ''html''), config_team = None, config_repos = None,
         answer_today = js ''Ship the release'', answer_blockers = []\<rparr>
        [js ''--repo'', js ''app'', js ''--format'', js ''XML'']
     = ([], Exit 1)
   \<and> main \<lparr>unicode_tables = u, resolve = (\<lambda>p. Inr (js ''/work/'' @ p)),
         basename = (\<lambda>p. drop 6 p), cwd = Inr (js ''/work''),
         execGitLog = (\<lambda>p. Inl ExecError),
         config_format = Some (js ''html''), config_team = None, config_repos = None,
         answer_today = js ''Ship the release'', answer_blockers = []\<rparr>
        [js ''--repo'', js ''app'']
     = ([], Exit 1)
   \<and> main \<lparr>unicode_tables = u, resolve = (\<lambda>p. Inr (js ''/work/'' @ p)),
         basename = (\<lambda>p. drop 6 p), cwd = Inr (js ''/work''),
         execGitLog = (\<lambda>p. Inl ExecError),
         config_format = Some (js ''html''), config_team = None, config_repos = None,
         answer_today = js ''Ship the release'', answer_blockers = []\<rparr>
        [js ''--format'', js ''Xml'']
     = ([], Exit 1)
   \<and> formatOutput u [] (js ''Ship the release'') (js ''None'') (js ''xml'') None
       = formatOutput u [] (js ''Ship the release'') (js ''None'') (js ''plain'') None
   \<and> main \<lparr>unicode_tables = u, resolve = (\<lambda>p. Inr (js ''/work/'' @ p)),
         basename = (\<lambda>p. drop 6 p), cwd = Inr (js ''/work''),
         execGitLog = (\<lambda>p. Inl ExecError),
         config_format = Some (js ''html''), config_team = None, config_repos = None,
         answer_today = js ''Ship the release'', answer_blockers = []\<rparr>
        [js ''--repo'', js ''app'', js ''-f'', js ''Slack'']
       = ([js ''/work/app''],
          Done (join [0x000A]
           [js ''*Yesterday:*'', js ''- No repositories scanned'',
            js ''*Today:* Ship the release'', js ''*Blockers:* None'']))
   \<and> (\<exists>rs today blockers format team.
         format \<in> set validFormats
         \<and> formatOutput u rs today blockers format team
             = Inr (join [0x000A]
                 [js ''*Yesterday:*'', js ''- No repositories scanned'',
                  js ''*Today:* Ship the release'', js ''*Blockers:* None'']))"
    unfolding e_def by blast
qed


end
